theory Spec2Isabelle
  imports Complex_Main "HOL-Library.Sublist" "HOL-Library.AList"
begin

section \<open>Python values\<close>

text \<open>
  The form generator (\<^verbatim>\<open>scripts/generate_intake_form.py\<close>) reads its specification with
  \<^verbatim>\<open>json.loads\<close>, so every value it inspects is one of: \<^verbatim>\<open>None\<close>, a \<^verbatim>\<open>bool\<close>, an
  \<^verbatim>\<open>int\<close>, a \<^verbatim>\<open>float\<close>, a \<^verbatim>\<open>str\<close>, a \<^verbatim>\<open>list\<close> or a \<^verbatim>\<open>dict\<close> with string keys.
  A float is a finite binary fraction (here: a rational), an infinity, or NaN;
  \<^verbatim>\<open>json.loads\<close> accepts the literals \<^verbatim>\<open>NaN\<close>, \<^verbatim>\<open>Infinity\<close> and \<^verbatim>\<open>-Infinity\<close>.
  A dict is an association list, of distinct keys in the order of insertion, read through
  \<open>map_of\<close>. Strings are lists of characters; a character stands for one code point.
\<close>

datatype pyfloat = Finite rat | PosInf | NegInf | NaN

datatype json =
    JNull
  | JBool bool
  | JInt int
  | JFloat pyfloat
  | JStr string
  | JList "json list"
  | JObj "(string \<times> json) list"

text \<open>\<^verbatim>\<open>x <= 0\<close> on a float: every ordered comparison with NaN is false.\<close>

fun float_le_zero :: "pyfloat \<Rightarrow> bool" where
  "float_le_zero (Finite q) = (q \<le> 0)"
| "float_le_zero PosInf = False"
| "float_le_zero NegInf = True"
| "float_le_zero NaN = False"


text \<open>
  \<^verbatim>\<open>str(x)\<close> and the formatting of \<^verbatim>\<open>x\<close> inside an f-string are the identity on a
  string. What Python prints for the other values is the builtin's business: it is the
  parameter \<open>str_of\<close> of every function that needs it.
\<close>

fun py_str :: "(json \<Rightarrow> string) \<Rightarrow> json \<Rightarrow> string" where
  "py_str str_of (JStr s) = s"
| "py_str str_of JNull = str_of JNull"
| "py_str str_of (JBool b) = str_of (JBool b)"
| "py_str str_of (JInt i) = str_of (JInt i)"
| "py_str str_of (JFloat f) = str_of (JFloat f)"
| "py_str str_of (JList xs) = str_of (JList xs)"
| "py_str str_of (JObj kvs) = str_of (JObj kvs)"

text \<open>The exceptions the modelled functions raise besides their own.\<close>

datatype py_error = KeyError string | TypeError


text \<open>Only lists and dicts are unhashable: testing them for membership in a set raises.\<close>

fun hashable :: "json \<Rightarrow> bool" where
  "hashable (JList xs) = False"
| "hashable (JObj kvs) = False"
| "hashable JNull = True"
| "hashable (JBool b) = True"
| "hashable (JInt i) = True"
| "hashable (JFloat f) = True"
| "hashable (JStr s) = True"

subsection \<open>Strings\<close>

text \<open>\<^verbatim>\<open>str.isspace\<close> on the code points below 256.\<close>

definition is_space :: "char \<Rightarrow> bool" where
  "is_space c = (of_char c \<in> {9, 10, 11, 12, 13, 28, 29, 30, 31, 32, 133, 160 :: nat})"

definition py_strip :: "string \<Rightarrow> string" where
  "py_strip s = rev (dropWhile is_space (rev (dropWhile is_space s)))"

text \<open>\<^verbatim>\<open>isinstance(x, str) and x.strip()\<close>, as a truth value.\<close>

fun nonblank_str :: "json \<Rightarrow> bool" where
  "nonblank_str (JStr s) = (py_strip s \<noteq> [])"
| "nonblank_str JNull = False"
| "nonblank_str (JBool b) = False"
| "nonblank_str (JInt i) = False"
| "nonblank_str (JFloat f) = False"
| "nonblank_str (JList xs) = False"
| "nonblank_str (JObj kvs) = False"

text \<open>
  \<^verbatim>\<open>s.replace(old, new)\<close>: the occurrences of \<open>old\<close> are found from the left and do not
  overlap; an empty \<open>old\<close> matches before every character and at the end.
\<close>

fun py_replace_ne :: "string \<Rightarrow> string \<Rightarrow> string \<Rightarrow> string" where
  "py_replace_ne old new [] = []"
| "py_replace_ne old new (c # cs) =
     (if old \<noteq> [] \<and> prefix old (c # cs)
      then new @ py_replace_ne old new (drop (length old) (c # cs))
      else c # py_replace_ne old new cs)"

definition py_replace :: "string \<Rightarrow> string \<Rightarrow> string \<Rightarrow> string" where
  "py_replace old new s =
     (if old = [] then new @ concat (map (\<lambda>c. c # new) s) else py_replace_ne old new s)"

section \<open>Validation: \<^verbatim>\<open>validate_spec\<close>\<close>

definition TOP_LEVEL_REQUIRED_KEYS :: "string list" where
  "TOP_LEVEL_REQUIRED_KEYS = [''metadata'', ''branding'', ''document_layout'', ''sections'']"

definition FIELD_REQUIRED_KEYS :: "string list" where
  "FIELD_REQUIRED_KEYS = [''id'', ''label'', ''type'', ''required'', ''help_text'']"

definition ALLOWED_FIELD_TYPES :: "string list" where
  "ALLOWED_FIELD_TYPES =
     [''text_short'', ''text_long'', ''checkbox'', ''checkbox_group'', ''dropdown'', ''date'',
      ''signature_line'', ''info_block'']"

text \<open>
  One constructor for each message \<^verbatim>\<open>validate_spec\<close> appends to \<^verbatim>\<open>errors\<close>. The numbers
  are the 1-based indices of the section, the field and the option that the message's
  prefix \<^verbatim>\<open>sections[i].fields[j].options[k]\<close> prints.
\<close>

datatype verror =
    RootNotObject  \<comment> \<open>Spec-root moet een JSON-object zijn.\<close>
  | MissingTopLevelKey string  \<comment> \<open>Ontbrekende top-level key: 'k'.\<close>
  | MetadataNotObject
  | BrandingNotObject
  | LayoutNotObject
  | SectionsNotList  \<comment> \<open>'sections' moet een niet-lege lijst zijn.\<close>
  | MarginNotPositive  \<comment> \<open>'document_layout.margin_cm' moet een positief getal zijn.\<close>
  | ColorInvalid string  \<comment> \<open>'branding.k' moet een hex kleur zijn\<close>
  | BrandingStringInvalid string  \<comment> \<open>'branding.k' moet een niet-lege string zijn.\<close>
  | SectionNotObject nat
  | SectionMissingKey nat string
  | SectionIdInvalid nat
  | SectionTitleInvalid nat
  | SectionFieldsInvalid nat
  | FieldNotObject nat nat
  | FieldMissingKey nat nat string
  | FieldIdInvalid nat nat  \<comment> \<open>.id moet een niet-lege string zijn.\<close>
  | DuplicateFieldId string  \<comment> \<open>Dubbele field id gevonden: 'id'.\<close>
  | FieldTypeInvalid nat nat json  \<comment> \<open>.type 't' is ongeldig.\<close>
  | FieldRequiredInvalid nat nat  \<comment> \<open>.required moet true of false zijn.\<close>
  | FieldLabelInvalid nat nat  \<comment> \<open>.label moet een niet-lege string zijn.\<close>
  | FieldHelpTextInvalid nat nat  \<comment> \<open>.help_text moet een string zijn\<close>
  | DropdownOptionsInvalid nat nat  \<comment> \<open>.options moet een niet-lege lijst zijn voor dropdown.\<close>
  | DropdownOptionsNotStrings nat nat
  | GroupOptionsInvalid nat nat  \<comment> \<open>.options moet een niet-lege lijst zijn voor checkbox_group.\<close>
  | OptionNotObject nat nat nat
  | OptionMissingKeys nat nat nat  \<comment> \<open>mist 'id' en/of 'label'.\<close>
  | OptionIdInvalid nat nat nat
  | DuplicateOptionId string  \<comment> \<open>Dubbele option id gevonden: 'id'.\<close>
  | OptionLabelInvalid nat nat nat

datatype validation_exn = SpecValidationError "verror list" | Raised py_error

text \<open>The two mutable locals of \<^verbatim>\<open>validate_spec\<close> that its loops share.\<close>

record vstate =
  seen_ids :: "string set"
  errors :: "verror list"

definition add_error :: "verror \<Rightarrow> vstate \<Rightarrow> vstate" where
  "add_error e st = st\<lparr>errors := errors st @ [e]\<rparr>"

definition is_hex_color :: "string \<Rightarrow> bool" where
  "is_hex_color v =
     (let stripped = py_strip v;
          stripped = (if prefix ''#'' stripped then drop 1 stripped else stripped)
      in if length stripped \<noteq> 6 then False
         else list_all (\<lambda>c. c \<in> set ''0123456789abcdefABCDEF'') stripped)"

text \<open>Lines 114-121: the shapes of the four top-level values.\<close>

fun is_dict :: "json \<Rightarrow> bool" where
  "is_dict (JObj kvs) = True"
| "is_dict JNull = False"
| "is_dict (JBool b) = False"
| "is_dict (JInt i) = False"
| "is_dict (JFloat f) = False"
| "is_dict (JStr s) = False"
| "is_dict (JList xs) = False"

fun nonempty_list :: "json \<Rightarrow> bool" where
  "nonempty_list (JList xs) = (xs \<noteq> [])"
| "nonempty_list JNull = False"
| "nonempty_list (JBool b) = False"
| "nonempty_list (JInt i) = False"
| "nonempty_list (JFloat f) = False"
| "nonempty_list (JStr s) = False"
| "nonempty_list (JObj kvs) = False"

definition check_shapes :: "json \<Rightarrow> json \<Rightarrow> json \<Rightarrow> json \<Rightarrow> vstate \<Rightarrow> vstate" where
  "check_shapes metadata branding layout sections st =
     (let st = (if \<not> is_dict metadata then add_error MetadataNotObject st else st);
          st = (if \<not> is_dict branding then add_error BrandingNotObject st else st);
          st = (if \<not> is_dict layout then add_error LayoutNotObject st else st);
          st = (if \<not> nonempty_list sections then add_error SectionsNotList st else st)
      in st)"

text \<open>
  Lines 123-126. \<^verbatim>\<open>not isinstance(margin_cm, (int, float)) or margin_cm <= 0\<close>: a
  \<^verbatim>\<open>bool\<close> is an \<^verbatim>\<open>int\<close> in Python (\<^verbatim>\<open>True\<close> is 1 and \<^verbatim>\<open>False\<close> is 0).
\<close>

fun margin_rejected :: "json \<Rightarrow> bool" where
  "margin_rejected (JInt i) = (i \<le> 0)"
| "margin_rejected (JFloat f) = float_le_zero f"
| "margin_rejected (JBool b) = ((if b then 1 else 0 :: int) \<le> 0)"
| "margin_rejected JNull = True"
| "margin_rejected (JStr s) = True"
| "margin_rejected (JList xs) = True"
| "margin_rejected (JObj kvs) = True"

definition check_layout :: "json \<Rightarrow> vstate \<Rightarrow> vstate" where
  "check_layout layout st =
     (case layout of
        JObj ld \<Rightarrow>
          (let margin_cm = (case map_of ld ''margin_cm'' of None \<Rightarrow> JFloat (Finite 2) | Some v \<Rightarrow> v)
           in if margin_rejected margin_cm then add_error MarginNotPositive st else st)
      | _ \<Rightarrow> st)"

text \<open>
  Lines 128-143. A colour is read with \<^verbatim>\<open>str(branding.get(key, ""))\<close>. For the three
  strings, \<^verbatim>\<open>branding.get(key, "")\<close> is a string when the key is absent, so the second
  disjunct \<^verbatim>\<open>not branding[key]\<close> is evaluated and raises \<^verbatim>\<open>KeyError\<close>.
\<close>

definition check_color :: "(json \<Rightarrow> string) \<Rightarrow> (string \<times> json) list \<Rightarrow> string \<Rightarrow> vstate \<Rightarrow> vstate" where
  "check_color str_of bd color_key st =
     (case map_of bd color_key of
        None \<Rightarrow> add_error (ColorInvalid color_key) st
      | Some v \<Rightarrow> if is_hex_color (py_str str_of v) then st else add_error (ColorInvalid color_key) st)"

definition check_branding_string ::
  "(string \<times> json) list \<Rightarrow> string \<Rightarrow> vstate \<Rightarrow> validation_exn + vstate" where
  "check_branding_string bd key st =
     (case map_of bd key of
        None \<Rightarrow> Inl (Raised (KeyError key))
      | Some (JStr s) \<Rightarrow> Inr (if s = [] then add_error (BrandingStringInvalid key) st else st)
      | Some _ \<Rightarrow> Inr (add_error (BrandingStringInvalid key) st))"

definition check_branding :: "(json \<Rightarrow> string) \<Rightarrow> json \<Rightarrow> vstate \<Rightarrow> validation_exn + vstate" where
  "check_branding str_of branding st =
     (case branding of
        JObj bd \<Rightarrow>
          (let st = foldl (\<lambda>s k. check_color str_of bd k s) st
                      [''primary_color'', ''secondary_color'', ''accent_color'', ''surface_color'',
                       ''text_color'']
           in case check_branding_string bd ''heading_font'' st of
                Inl e \<Rightarrow> Inl e
              | Inr st \<Rightarrow>
                  (case check_branding_string bd ''body_font'' st of
                     Inl e \<Rightarrow> Inl e
                   | Inr st \<Rightarrow> check_branding_string bd ''logo_path'' st))
      | _ \<Rightarrow> Inr st)"

text \<open>
  Lines 190-193 and 234-237: the one set of ids, shared by fields and options. The error
  constructor is the caller's (\<open>DuplicateFieldId\<close> or \<open>DuplicateOptionId\<close>).
\<close>

definition register_id :: "(string \<Rightarrow> verror) \<Rightarrow> string \<Rightarrow> vstate \<Rightarrow> vstate" where
  "register_id dup ident st =
     (if ident \<in> seen_ids st then add_error (dup ident) st
      else st\<lparr>seen_ids := insert ident (seen_ids st)\<rparr>)"

text \<open>Lines 221-239: one option of a \<^verbatim>\<open>checkbox_group\<close>.\<close>

definition validate_option :: "nat \<Rightarrow> nat \<Rightarrow> nat \<Rightarrow> json \<Rightarrow> vstate \<Rightarrow> vstate" where
  "validate_option si fi oi opt st =
     (case opt of
        JObj od \<Rightarrow>
          (case map_of od ''id'' of
             None \<Rightarrow> add_error (OptionMissingKeys si fi oi) st
           | Some option_id \<Rightarrow>
               (case map_of od ''label'' of
                  None \<Rightarrow> add_error (OptionMissingKeys si fi oi) st
                | Some option_label \<Rightarrow>
                    (case option_id of
                       JStr s \<Rightarrow>
                         if py_strip s = [] then add_error (OptionIdInvalid si fi oi) st
                         else (let st = register_id DuplicateOptionId s st
                               in if \<not> nonblank_str option_label
                                  then add_error (OptionLabelInvalid si fi oi) st else st)
                     | _ \<Rightarrow> add_error (OptionIdInvalid si fi oi) st)))
      | _ \<Rightarrow> add_error (OptionNotObject si fi oi) st)"

fun validate_options :: "nat \<Rightarrow> nat \<Rightarrow> nat \<Rightarrow> json list \<Rightarrow> vstate \<Rightarrow> vstate" where
  "validate_options si fi oi [] st = st"
| "validate_options si fi oi (opt # opts) st =
     validate_options si fi (Suc oi) opts (validate_option si fi oi opt st)"

text \<open>Lines 209-214 and 216-219: the \<^verbatim>\<open>options\<close> of a dropdown and of a checkbox group.\<close>

definition check_dropdown_options :: "nat \<Rightarrow> nat \<Rightarrow> json option \<Rightarrow> vstate \<Rightarrow> vstate" where
  "check_dropdown_options si fi opts st =
     (case opts of
        Some (JList os) \<Rightarrow>
          if os = [] then add_error (DropdownOptionsInvalid si fi) st
          else if \<not> list_all nonblank_str os then add_error (DropdownOptionsNotStrings si fi) st
          else st
      | _ \<Rightarrow> add_error (DropdownOptionsInvalid si fi) st)"

definition check_group_options :: "nat \<Rightarrow> nat \<Rightarrow> json option \<Rightarrow> vstate \<Rightarrow> vstate" where
  "check_group_options si fi opts st =
     (case opts of
        Some (JList os) \<Rightarrow>
          if os = [] then add_error (GroupOptionsInvalid si fi) st
          else validate_options si fi 1 os st
      | _ \<Rightarrow> add_error (GroupOptionsInvalid si fi) st)"

text \<open>
  Lines 195-239, reached with a non-blank string id \<open>ident\<close>. The membership test
  \<^verbatim>\<open>field_type not in ALLOWED_FIELD_TYPES\<close> hashes \<open>field_type\<close>: a list or a dict raises
  \<^verbatim>\<open>TypeError\<close> there, and the exception leaves \<^verbatim>\<open>validate_spec\<close>.
\<close>

fun is_bool :: "json \<Rightarrow> bool" where
  "is_bool (JBool b) = True"
| "is_bool JNull = False"
| "is_bool (JInt i) = False"
| "is_bool (JFloat f) = False"
| "is_bool (JStr s) = False"
| "is_bool (JList xs) = False"
| "is_bool (JObj kvs) = False"

fun is_str :: "json \<Rightarrow> bool" where
  "is_str (JStr s) = True"
| "is_str JNull = False"
| "is_str (JBool b) = False"
| "is_str (JInt i) = False"
| "is_str (JFloat f) = False"
| "is_str (JList xs) = False"
| "is_str (JObj kvs) = False"

fun type_allowed :: "json \<Rightarrow> bool" where
  "type_allowed (JStr s) = (s \<in> set ALLOWED_FIELD_TYPES)"
| "type_allowed JNull = False"
| "type_allowed (JBool b) = False"
| "type_allowed (JInt i) = False"
| "type_allowed (JFloat f) = False"
| "type_allowed (JList xs) = False"
| "type_allowed (JObj kvs) = False"

definition check_field_body ::
  "nat \<Rightarrow> nat \<Rightarrow> (string \<times> json) list \<Rightarrow> string \<Rightarrow> json \<Rightarrow> json \<Rightarrow> json \<Rightarrow> json \<Rightarrow> vstate
   \<Rightarrow> validation_exn + vstate" where
  "check_field_body si fi fd ident field_type required label_v help_text st =
     (let st = register_id DuplicateFieldId ident st
      in if \<not> hashable field_type then Inl (Raised TypeError)
         else
          (let st = (if \<not> type_allowed field_type
                     then add_error (FieldTypeInvalid si fi field_type) st else st);
               st = (if \<not> is_bool required then add_error (FieldRequiredInvalid si fi) st else st);
               st = (if \<not> nonblank_str label_v then add_error (FieldLabelInvalid si fi) st else st);
               st = (if \<not> is_str help_text then add_error (FieldHelpTextInvalid si fi) st else st);
               st = (if field_type = JStr ''dropdown''
                     then check_dropdown_options si fi (map_of fd ''options'') st else st);
               st = (if field_type = JStr ''checkbox_group''
                     then check_group_options si fi (map_of fd ''options'') st else st)
           in Inr st))"

text \<open>
  Lines 168-239: one field. After the five required keys are known to be present the
  subscripts \<^verbatim>\<open>field_spec["id"]\<close>, ... cannot fail; the model keeps their \<^verbatim>\<open>KeyError\<close>.
\<close>

definition validate_field :: "nat \<Rightarrow> nat \<Rightarrow> json \<Rightarrow> vstate \<Rightarrow> validation_exn + vstate" where
  "validate_field si fi field_spec st =
     (case field_spec of
        JObj fd \<Rightarrow>
          (let st = foldl (\<lambda>s k. if map_of fd k = None then add_error (FieldMissingKey si fi k) s else s)
                      st FIELD_REQUIRED_KEYS
           in if list_ex (\<lambda>k. map_of fd k = None) FIELD_REQUIRED_KEYS then Inr st
              else
               (case map_of fd ''id'' of
                  None \<Rightarrow> Inl (Raised (KeyError ''id''))
                | Some field_id \<Rightarrow>
                 (case map_of fd ''type'' of
                    None \<Rightarrow> Inl (Raised (KeyError ''type''))
                  | Some field_type \<Rightarrow>
                   (case map_of fd ''required'' of
                      None \<Rightarrow> Inl (Raised (KeyError ''required''))
                    | Some required \<Rightarrow>
                     (case map_of fd ''help_text'' of
                        None \<Rightarrow> Inl (Raised (KeyError ''help_text''))
                      | Some help_text \<Rightarrow>
                       (case field_id of
                          JStr ident \<Rightarrow>
                            if py_strip ident = [] then Inr (add_error (FieldIdInvalid si fi) st)
                            else
                             (case map_of fd ''label'' of
                                None \<Rightarrow> Inl (Raised (KeyError ''label''))
                              | Some label_v \<Rightarrow>
                                  check_field_body si fi fd ident field_type required label_v
                                    help_text st)
                        | _ \<Rightarrow> Inr (add_error (FieldIdInvalid si fi) st)))))))
      | _ \<Rightarrow> Inr (add_error (FieldNotObject si fi) st))"

fun validate_fields :: "nat \<Rightarrow> nat \<Rightarrow> json list \<Rightarrow> vstate \<Rightarrow> validation_exn + vstate" where
  "validate_fields si fi [] st = Inr st"
| "validate_fields si fi (field_spec # rest) st =
     (case validate_field si fi field_spec st of
        Inl e \<Rightarrow> Inl e
      | Inr st \<Rightarrow> validate_fields si (Suc fi) rest st)"

text \<open>Lines 148-239: one section. \<^verbatim>\<open>section.get(key)\<close> is \<^verbatim>\<open>None\<close> for an absent key.\<close>

definition validate_section :: "nat \<Rightarrow> json \<Rightarrow> vstate \<Rightarrow> validation_exn + vstate" where
  "validate_section si section_v st =
     (case section_v of
        JObj sd \<Rightarrow>
          (let st = foldl (\<lambda>s k. if map_of sd k = None then add_error (SectionMissingKey si k) s else s)
                      st [''id'', ''title'', ''fields''];
               st = (case map_of sd ''id'' of
                       Some v \<Rightarrow> if \<not> nonblank_str v then add_error (SectionIdInvalid si) st else st
                     | None \<Rightarrow> add_error (SectionIdInvalid si) st);
               st = (case map_of sd ''title'' of
                       Some v \<Rightarrow> if \<not> nonblank_str v then add_error (SectionTitleInvalid si) st else st
                     | None \<Rightarrow> add_error (SectionTitleInvalid si) st)
           in case map_of sd ''fields'' of
                Some (JList field_list) \<Rightarrow>
                  if field_list = [] then Inr (add_error (SectionFieldsInvalid si) st)
                  else validate_fields si 1 field_list st
              | _ \<Rightarrow> Inr (add_error (SectionFieldsInvalid si) st))
      | _ \<Rightarrow> Inr (add_error (SectionNotObject si) st))"

fun validate_sections :: "nat \<Rightarrow> json list \<Rightarrow> vstate \<Rightarrow> validation_exn + vstate" where
  "validate_sections si [] st = Inr st"
| "validate_sections si (section_v # rest) st =
     (case validate_section si section_v st of
        Inl e \<Rightarrow> Inl e
      | Inr st \<Rightarrow> validate_sections (Suc si) rest st)"

definition check_sections :: "json \<Rightarrow> vstate \<Rightarrow> validation_exn + vstate" where
  "check_sections sections st =
     (case sections of JList secs \<Rightarrow> validate_sections 1 secs st | _ \<Rightarrow> Inr st)"

text \<open>
  \<^verbatim>\<open>validate_spec\<close>, lines 96-242. \<open>Inr ()\<close> is the silent return; \<open>Inl\<close> is the
  exception that leaves the function.
\<close>

definition validate_spec :: "(json \<Rightarrow> string) \<Rightarrow> json \<Rightarrow> validation_exn + unit" where
  "validate_spec str_of spec =
     (case spec of
        JObj d \<Rightarrow>
          (let missing = filter (\<lambda>key. map_of d key = None) TOP_LEVEL_REQUIRED_KEYS
           in if missing \<noteq> [] then Inl (SpecValidationError (map MissingTopLevelKey missing))
              else
               (case map_of d ''metadata'' of
                  None \<Rightarrow> Inl (Raised (KeyError ''metadata''))
                | Some metadata \<Rightarrow>
                 (case map_of d ''branding'' of
                    None \<Rightarrow> Inl (Raised (KeyError ''branding''))
                  | Some branding \<Rightarrow>
                   (case map_of d ''document_layout'' of
                      None \<Rightarrow> Inl (Raised (KeyError ''document_layout''))
                    | Some layout \<Rightarrow>
                     (case map_of d ''sections'' of
                        None \<Rightarrow> Inl (Raised (KeyError ''sections''))
                      | Some sections \<Rightarrow>
                         (let st = check_shapes metadata branding layout sections
                                     \<lparr>seen_ids = {}, errors = []\<rparr>;
                              st = check_layout layout st
                          in case check_branding str_of branding st of
                               Inl e \<Rightarrow> Inl e
                             | Inr st \<Rightarrow>
                                 (case check_sections sections st of
                                    Inl e \<Rightarrow> Inl e
                                  | Inr st \<Rightarrow>
                                      if errors st \<noteq> [] then Inl (SpecValidationError (errors st))
                                      else Inr ())))))))
      | _ \<Rightarrow> Inl (SpecValidationError [RootNotObject]))"

section \<open>Planning: the placeholders of \<^verbatim>\<open>build_base_document\<close>\<close>

text \<open>
  The dataclass \<^verbatim>\<open>PlaceholderSpec\<close>. Python does not enforce the annotations: the type, id
  and label are whatever values the specification holds (strings, once it is validated).
\<close>

record PlaceholderSpec =
  marker :: string
  field_type :: json
  field_id :: json
  label :: json
  required :: bool
  options :: "string list"

text \<open>\<^verbatim>\<open>marker_for\<close>, lines 267-268: the f-string \<^verbatim>\<open>[[FIELD:{field_id}]]\<close>.\<close>

definition marker_for :: "string \<Rightarrow> string" where
  "marker_for ident = ''[[FIELD:'' @ ident @ '']]''"









section \<open>Fallback: \<^verbatim>\<open>apply_plain_fallback\<close>\<close>

text \<open>
  Lines 795-808. \<^verbatim>\<open>replacement_map\<close> is a dict: assigning to a key that is already there
  keeps the key's place and overwrites its value, which is what \<open>AList.update\<close> does.
\<close>

definition glyph_for :: "json \<Rightarrow> string" where
  "glyph_for ftype =
     (if ftype = JStr ''checkbox'' then ''[ ]''
      else if ftype = JStr ''date'' then ''__-__-____''
      else if ftype = JStr ''dropdown'' then ''[Kies een optie]''
      else if ftype = JStr ''signature_line'' then ''______________________________ (Handtekening)''
      else if ftype = JStr ''text_long'' then ''____________________________________________''
      else ''____________________________'')"

fun build_replacement_map ::
  "PlaceholderSpec list \<Rightarrow> (string \<times> string) list \<Rightarrow> (string \<times> string) list" where
  "build_replacement_map [] replacement_map = replacement_map"
| "build_replacement_map (placeholder # rest) replacement_map =
     build_replacement_map rest
       (AList.update (marker placeholder) (glyph_for (field_type placeholder)) replacement_map)"

text \<open>Lines 812-815: the inner loop over the map, on one paragraph's text.
  \<^verbatim>\<open>marker in updated_text\<close> is the substring test.\<close>

fun substitute_markers :: "(string \<times> string) list \<Rightarrow> string \<Rightarrow> string" where
  "substitute_markers [] updated_text = updated_text"
| "substitute_markers ((m, replacement) # rest) updated_text =
     substitute_markers rest
       (if sublist m updated_text then py_replace m replacement updated_text else updated_text)"

text \<open>
  The document of python-docx. A paragraph is a sequence of runs, each a text with its
  character formatting; \<^verbatim>\<open>paragraph.text\<close> reads the concatenation of the runs' texts, and
  assigning to it replaces the runs by a single run that holds the new text. Paragraph
  objects are proxies of the elements of one document tree, so a paragraph is a reference
  into a store. A cell holds paragraphs and tables; the body too.
\<close>

type_synonym run = "string \<times> string"

type_synonym par = "run list"

definition paragraph_text :: "par \<Rightarrow> string" where
  "paragraph_text p = concat (map fst p)"

definition set_paragraph_text :: "string \<Rightarrow> par" where
  "set_paragraph_text t = [(t, [])]"

datatype block = Para nat | Table "block list list list"

record document =
  body :: "block list"
  paragraphs :: "nat \<Rightarrow> par"

text \<open>\<^verbatim>\<open>x.paragraphs\<close> and \<^verbatim>\<open>x.tables\<close> of the body or of a cell: its own children only.\<close>

fun paragraphs_of :: "block list \<Rightarrow> nat list" where
  "paragraphs_of [] = []"
| "paragraphs_of (Para r # bs) = r # paragraphs_of bs"
| "paragraphs_of (Table t # bs) = paragraphs_of bs"

fun tables_of :: "block list \<Rightarrow> block list list list list" where
  "tables_of [] = []"
| "tables_of (Para r # bs) = tables_of bs"
| "tables_of (Table t # bs) = t # tables_of bs"

text \<open>\<^verbatim>\<open>iter_all_paragraphs\<close>, lines 784-791.\<close>

definition iter_all_paragraphs :: "document \<Rightarrow> nat list" where
  "iter_all_paragraphs doc =
     paragraphs_of (body doc) @
     concat (map (\<lambda>table. concat (map (\<lambda>row. concat (map (\<lambda>cell. paragraphs_of cell) row)) table))
               (tables_of (body doc)))"

text \<open>Lines 812-817: the body of the loop over the paragraphs.\<close>

definition fallback_paragraph :: "(string \<times> string) list \<Rightarrow> par \<Rightarrow> par" where
  "fallback_paragraph replacement_map p =
     (let updated_text = substitute_markers replacement_map (paragraph_text p)
      in if updated_text \<noteq> paragraph_text p then set_paragraph_text updated_text else p)"

fun fallback_loop ::
  "(string \<times> string) list \<Rightarrow> nat list \<Rightarrow> (nat \<Rightarrow> par) \<Rightarrow> (nat \<Rightarrow> par)" where
  "fallback_loop replacement_map [] store = store"
| "fallback_loop replacement_map (r # rs) store =
     fallback_loop replacement_map rs (store(r := fallback_paragraph replacement_map (store r)))"

text \<open>\<^verbatim>\<open>apply_plain_fallback\<close>, lines 794-818: the document read from \<^verbatim>\<open>base_doc_path\<close> and
  the document saved back to it.\<close>

definition apply_plain_fallback :: "document \<Rightarrow> PlaceholderSpec list \<Rightarrow> document" where
  "apply_plain_fallback doc placeholders =
     doc\<lparr>paragraphs :=
       fallback_loop (build_replacement_map placeholders []) (iter_all_paragraphs doc)
         (paragraphs doc)\<rparr>"

section \<open>Interactive resolution: \<^verbatim>\<open>apply_com_controls\<close>\<close>

text \<open>
  Word is driven through COM. What the code asks of it is a record of operations on an
  abstract document \<open>'w\<close>: the end of the content, a forward search for a text in a
  range (\<^verbatim>\<open>Find.Execute\<close> with \<^verbatim>\<open>Wrap = wdFindStop\<close>, which answers with the range of
  the match), the assignment of a range's text, and the insertion of a content control at
  a position. The properties below hold for every such record. The failures of COM itself
  (no Word, a call that raises) are not modelled; the assignments to a control's
  properties that the code guards with \<^verbatim>\<open>try\<close> are part of the control.
\<close>

datatype control =
    TextControl json json  \<comment> \<open>title, tag; wdContentControlText, single line\<close>
  | RichTextControl json json  \<comment> \<open>wdContentControlRichText, multi-line\<close>
  | CheckboxControl json json  \<comment> \<open>wdContentControlCheckBox, unchecked\<close>
  | DropdownControl json json "(string \<times> (json \<times> nat) \<times> nat) list"
      \<comment> \<open>wdContentControlDropdownList; entries: text, value (field id, number), index\<close>
  | DateControl json json  \<comment> \<open>wdContentControlDate, dd-MM-yyyy, locale 1043\<close>

record 'w word_api =
  content_end :: "'w \<Rightarrow> nat"
  find_execute :: "'w \<Rightarrow> nat \<Rightarrow> nat \<Rightarrow> string \<Rightarrow> (nat \<times> nat) option"
  set_range_text :: "'w \<Rightarrow> nat \<Rightarrow> nat \<Rightarrow> string \<Rightarrow> 'w"
  add_content_control :: "'w \<Rightarrow> nat \<Rightarrow> control \<Rightarrow> 'w"

datatype marker_error =
    MarkerNotFound string  \<comment> \<open>Marker niet gevonden in document: m\<close>
  | MarkerRepeated nat string  \<comment> \<open>Marker kwam meerdere keren voor (nx): m\<close>

datatype com_exn =
    UnknownFieldType json  \<comment> \<open>Onbekend field_type voor COM-replacement\<close>
  | MarkersNotReplaced "marker_error list"
      \<comment> \<open>Niet alle markers konden correct worden vervangen\<close>

text \<open>The entries of a dropdown, lines 709-711.\<close>

definition dropdown_entries :: "json \<Rightarrow> string list \<Rightarrow> (string \<times> (json \<times> nat) \<times> nat) list" where
  "dropdown_entries fid opts =
     (''Kies een optie'', (fid, 0), 1)
     # map (\<lambda>(index, opt). (opt, (fid, index), index)) (zip [2 ..< 2 + length opts] opts)"

text \<open>\<^verbatim>\<open>replace_single_marker\<close>, lines 658-725.\<close>

definition replace_single_marker ::
  "'w word_api \<Rightarrow> 'w \<Rightarrow> nat \<Rightarrow> nat \<Rightarrow> PlaceholderSpec \<Rightarrow> com_exn + 'w" where
  "replace_single_marker api w range_start range_end placeholder =
     (if field_type placeholder = JStr ''signature_line''
      then Inr (set_range_text api w range_start range_end
                  ''______________________________ (Handtekening)'')
      else
       (let w = set_range_text api w range_start range_end []
        in if field_type placeholder = JStr ''text_short''
           then Inr (add_content_control api w range_start
                       (TextControl (label placeholder) (field_id placeholder)))
           else if field_type placeholder = JStr ''text_long''
           then Inr (add_content_control api w range_start
                       (RichTextControl (label placeholder) (field_id placeholder)))
           else if field_type placeholder = JStr ''checkbox''
           then Inr (add_content_control api w range_start
                       (CheckboxControl (label placeholder) (field_id placeholder)))
           else if field_type placeholder = JStr ''dropdown''
           then Inr (add_content_control api w range_start
                       (DropdownControl (label placeholder) (field_id placeholder)
                          (dropdown_entries (field_id placeholder) (options placeholder))))
           else if field_type placeholder = JStr ''date''
           then Inr (add_content_control api w range_start
                       (DateControl (label placeholder) (field_id placeholder)))
           else Inl (UnknownFieldType (field_type placeholder))))"

text \<open>
  \<^verbatim>\<open>replace_marker_with_control\<close>, lines 634-655. The \<^verbatim>\<open>while\<close> loop ends when the search
  fails or the cursor passes the end of the content; nothing in the code bounds the number
  of rounds, so the loop is a partial function: \<open>None\<close> is the run that never returns.
\<close>

partial_function (option) replace_loop ::
  "'w word_api \<Rightarrow> PlaceholderSpec \<Rightarrow> 'w \<Rightarrow> nat \<Rightarrow> nat \<Rightarrow> (com_exn + nat \<times> 'w) option" where
  "replace_loop api placeholder w cursor replaced_count =
     (if cursor \<le> content_end api w then
        (case find_execute api w cursor (content_end api w) (marker placeholder) of
           None \<Rightarrow> Some (Inr (replaced_count, w))
         | Some found \<Rightarrow>
             (case replace_single_marker api w (fst found) (snd found) placeholder of
                Inl ex \<Rightarrow> Some (Inl ex)
              | Inr w' \<Rightarrow>
                  replace_loop api placeholder w' (max (snd found) (cursor + 1))
                    (replaced_count + 1)))
      else Some (Inr (replaced_count, w)))"

declare replace_loop.simps [code]

definition replace_marker_with_control ::
  "'w word_api \<Rightarrow> 'w \<Rightarrow> PlaceholderSpec \<Rightarrow> (com_exn + nat \<times> 'w) option" where
  "replace_marker_with_control api w placeholder = replace_loop api placeholder w 0 0"

text \<open>Lines 751-760: the loop over the placeholders, with \<^verbatim>\<open>replacement_errors\<close>.\<close>

fun resolve_placeholders ::
  "'w word_api \<Rightarrow> PlaceholderSpec list \<Rightarrow> 'w \<Rightarrow> marker_error list
   \<Rightarrow> (com_exn + marker_error list \<times> 'w) option" where
  "resolve_placeholders api [] w replacement_errors = Some (Inr (replacement_errors, w))"
| "resolve_placeholders api (placeholder # rest) w replacement_errors =
     (case replace_marker_with_control api w placeholder of
        None \<Rightarrow> None
      | Some (Inl ex) \<Rightarrow> Some (Inl ex)
      | Some (Inr (n, w')) \<Rightarrow>
          resolve_placeholders api rest w'
            (if n = 0 then replacement_errors @ [MarkerNotFound (marker placeholder)]
             else if n > 1 then replacement_errors @ [MarkerRepeated n (marker placeholder)]
             else replacement_errors))"

text \<open>
  \<^verbatim>\<open>apply_com_controls\<close>, lines 745-769, on the opened base document. The result, when the
  function returns or raises, is the exception raised (if any) and the document that
  \<^verbatim>\<open>SaveAs2\<close> wrote to the output path (if it was called).
\<close>

definition apply_com_controls ::
  "'w word_api \<Rightarrow> 'w \<Rightarrow> PlaceholderSpec list \<Rightarrow> (com_exn option \<times> 'w option) option" where
  "apply_com_controls api word_doc placeholders =
     (case resolve_placeholders api placeholders word_doc [] of
        None \<Rightarrow> None
      | Some (Inl ex) \<Rightarrow> Some (Some ex, None)
      | Some (Inr (replacement_errors, w)) \<Rightarrow>
          if replacement_errors \<noteq> []
          then Some (Some (MarkersNotReplaced replacement_errors), None)
          else Some (None, Some w))"

section \<open>Concrete inputs\<close>

text \<open>
  A small specification: one section with a required short text field \<open>name\<close> and a
  checkbox group \<open>symptoms\<close> with the options \<open>pain\<close> and \<open>fatigue\<close>. The layout and
  the fields are parameters.
\<close>

definition example_branding :: json where
  "example_branding = JObj
     [(''primary_color'', JStr ''#17372c''), (''secondary_color'', JStr ''#2d5647''),
      (''accent_color'', JStr ''#c99642''), (''surface_color'', JStr ''#f4f1ea''),
      (''text_color'', JStr ''1f332c''), (''heading_font'', JStr ''Georgia''),
      (''body_font'', JStr ''Calibri''), (''logo_path'', JStr ''logo.png'')]"

definition example_fields :: "json list" where
  "example_fields =
     [JObj [(''id'', JStr ''name''), (''label'', JStr ''Naam''), (''type'', JStr ''text_short''),
            (''required'', JBool True), (''help_text'', JStr [])],
      JObj [(''id'', JStr ''symptoms''), (''label'', JStr ''Klachten''),
            (''type'', JStr ''checkbox_group''), (''required'', JBool False),
            (''help_text'', JStr []),
            (''options'', JList [JObj [(''id'', JStr ''pain''), (''label'', JStr ''Pijn'')],
                               JObj [(''id'', JStr ''fatigue''), (''label'', JStr ''Moe'')]])]]"

definition example_spec :: "json \<Rightarrow> json list \<Rightarrow> json" where
  "example_spec layout field_list = JObj
     [(''metadata'', JObj []), (''branding'', example_branding), (''document_layout'', layout),
      (''sections'', JList [JObj [(''id'', JStr ''s1''), (''title'', JStr ''Intake''),
                                 (''fields'', JList field_list)]])]"

text \<open>The builtin \<^verbatim>\<open>str\<close> where an input needs one: no input below calls it on a value
  that is not a string.\<close>

definition no_str :: "json \<Rightarrow> string" where
  "no_str v = []"

section \<open>What the claims about the fallback speak of\<close>

text \<open>
  Every paragraph of a document, those of tables inside cells included, in document order;
  and the documents none of whose cells holds a table. The code has neither: they say what
  the claims about the fallback speak of.
\<close>

fun all_block_paragraphs :: "block \<Rightarrow> nat list" where
  "all_block_paragraphs (Para r) = [r]"
| "all_block_paragraphs (Table t) =
     concat (map (\<lambda>row. concat (map (\<lambda>cell. concat (map all_block_paragraphs cell)) row)) t)"

definition all_paragraphs :: "document \<Rightarrow> nat list" where
  "all_paragraphs doc = concat (map all_block_paragraphs (body doc))"


text \<open>
  The placeholders planned for the small specification, and a base document that shows
  each marker once: a title, then a table with the label row and the marker rows.
\<close>

definition example_placeholders :: "PlaceholderSpec list" where
  "example_placeholders =
     [\<lparr>marker = ''[[FIELD:name]]'', field_type = JStr ''text_short'', field_id = JStr ''name'',
       label = JStr ''Naam'', required = True, options = []\<rparr>,
      \<lparr>marker = ''[[FIELD:pain]]'', field_type = JStr ''checkbox'', field_id = JStr ''pain'',
       label = JStr ''Pijn'', required = False, options = []\<rparr>,
      \<lparr>marker = ''[[FIELD:fatigue]]'', field_type = JStr ''checkbox'', field_id = JStr ''fatigue'',
       label = JStr ''Moe'', required = False, options = []\<rparr>]"

definition example_document :: document where
  "example_document =
     \<lparr>body = [Para 0, Table [[[Para 1]], [[Para 2]], [[Para 3]], [[Para 4]]], Para 5],
      paragraphs = (\<lambda>r. [])
        (0 := [(''Intakeformulier'', ''title'')],
         1 := [(''Naam'', ''bold''), ('' *'', ''accent'')],
         2 := [(''[[FIELD:name]]'', ''body'')],
         3 := [(''[[FIELD:pain]] Pijn'', ''body'')],
         4 := [(''[[FIELD:fatigue]] Moe'', ''body'')])\<rparr>"




section \<open>What the claims about validation speak of\<close>

text \<open>
  The definitions of this section are not the code's: they name what the claims say, so
  that the code can be compared with it. First, the errors of the option checks (lines
  209-239), the errors a result reports, and the results that are an exception other
  than \<^verbatim>\<open>SpecValidationError\<close>.
\<close>

fun is_option_error :: "verror \<Rightarrow> bool" where
  "is_option_error (DropdownOptionsInvalid si fi) = True"
| "is_option_error (DropdownOptionsNotStrings si fi) = True"
| "is_option_error (GroupOptionsInvalid si fi) = True"
| "is_option_error (OptionNotObject si fi oi) = True"
| "is_option_error (OptionMissingKeys si fi oi) = True"
| "is_option_error (OptionIdInvalid si fi oi) = True"
| "is_option_error (DuplicateOptionId s) = True"
| "is_option_error (OptionLabelInvalid si fi oi) = True"
| "is_option_error e = False"

definition reported :: "validation_exn + unit \<Rightarrow> verror list" where
  "reported r = (case r of Inl (SpecValidationError errs) \<Rightarrow> errs | _ \<Rightarrow> [])"

fun aborted :: "validation_exn + unit \<Rightarrow> bool" where
  "aborted (Inl (Raised e)) = True"
| "aborted (Inl (SpecValidationError errs)) = False"
| "aborted (Inr u) = False"

text \<open>
  The ids under the uniqueness rule, in document order: the id of every field that is an
  object with the five required keys and a non-blank string id, followed, when the field's
  type is \<^verbatim>\<open>checkbox_group\<close> and its options are a list, by the id of every option that is
  an object with an id and a label and whose id is a non-blank string; over the fields of
  every section that is an object whose \<^verbatim>\<open>fields\<close> is a list.
\<close>

definition option_id_of :: "json \<Rightarrow> string list" where
  "option_id_of opt =
     (case opt of
        JObj od \<Rightarrow>
          (case map_of od ''id'' of
             Some (JStr s) \<Rightarrow>
               if map_of od ''label'' \<noteq> None \<and> py_strip s \<noteq> [] then [s] else []
           | _ \<Rightarrow> [])
      | _ \<Rightarrow> [])"

definition group_option_ids :: "json option \<Rightarrow> string list" where
  "group_option_ids opts =
     (case opts of Some (JList os) \<Rightarrow> concat (map option_id_of os) | _ \<Rightarrow> [])"

definition field_ids :: "json \<Rightarrow> string list" where
  "field_ids field_spec =
     (case field_spec of
        JObj fd \<Rightarrow>
          if list_ex (\<lambda>k. map_of fd k = None) FIELD_REQUIRED_KEYS then []
          else
           (case map_of fd ''id'' of
              Some (JStr s) \<Rightarrow>
                if py_strip s = [] then []
                else s # (if map_of fd ''type'' = Some (JStr ''checkbox_group'')
                          then group_option_ids (map_of fd ''options'') else [])
            | _ \<Rightarrow> [])
      | _ \<Rightarrow> [])"

definition section_ids :: "json \<Rightarrow> string list" where
  "section_ids section_v =
     (case section_v of
        JObj sd \<Rightarrow>
          (case map_of sd ''fields'' of
             Some (JList field_list) \<Rightarrow> concat (map field_ids field_list)
           | _ \<Rightarrow> [])
      | _ \<Rightarrow> [])"

definition checked_ids :: "json \<Rightarrow> string list" where
  "checked_ids spec =
     (case spec of
        JObj d \<Rightarrow>
          (case map_of d ''sections'' of
             Some (JList secs) \<Rightarrow> concat (map section_ids secs)
           | _ \<Rightarrow> [])
      | _ \<Rightarrow> [])"

text \<open>
  The number of duplicate-id errors that name \<open>x\<close>; the number of occurrences of \<open>x\<close>
  in a list of ids that come after a first one (or after the ids already seen); and the
  step relation that the validator's walk keeps: the ids of the step are added to the set,
  the errors are extended, and the duplicate errors added are those of the step's ids.
\<close>

fun names_duplicate :: "string \<Rightarrow> verror \<Rightarrow> bool" where
  "names_duplicate x (DuplicateFieldId s) = (s = x)"
| "names_duplicate x (DuplicateOptionId s) = (s = x)"
| "names_duplicate x e = False"

definition dup_count :: "string \<Rightarrow> verror list \<Rightarrow> nat" where
  "dup_count x errs = length (filter (names_duplicate x) errs)"

definition excess :: "string set \<Rightarrow> string list \<Rightarrow> string \<Rightarrow> nat" where
  "excess seen ids x = (if x \<in> seen then count_list ids x else count_list ids x - 1)"

definition tracks :: "vstate \<Rightarrow> vstate \<Rightarrow> string list \<Rightarrow> bool" where
  "tracks st st' ids \<longleftrightarrow>
     seen_ids st' = seen_ids st \<union> set ids
     \<and> prefix (errors st) (errors st')
     \<and> (\<forall>x. dup_count x (errors st') = dup_count x (errors st) + excess (seen_ids st) ids x)"

text \<open>Fields for the concrete inputs.\<close>

definition bad_id_field :: json where
  "bad_id_field =
     JObj [(''id'', JStr []), (''label'', JStr ''Naam''), (''type'', JStr ''bogus''),
           (''required'', JBool True), (''help_text'', JStr [])]"

definition all_bad_field :: json where
  "all_bad_field =
     JObj [(''id'', JStr ''name''), (''label'', JStr []), (''type'', JStr ''bogus''),
           (''required'', JStr ''yes''), (''help_text'', JNull)]"

definition name_field :: json where
  "name_field =
     JObj [(''id'', JStr ''name''), (''label'', JStr ''Naam''), (''type'', JStr ''text_short''),
           (''required'', JBool True), (''help_text'', JStr [])]"

definition group_field :: "string \<Rightarrow> string list \<Rightarrow> json" where
  "group_field ident option_ids =
     JObj [(''id'', JStr ident), (''label'', JStr ''Klachten''), (''type'', JStr ''checkbox_group''),
           (''required'', JBool False), (''help_text'', JStr []),
           (''options'', JList (map (\<lambda>i. JObj [(''id'', JStr i), (''label'', JStr ''Optie'')])
                                 option_ids))]"

definition repeated_id_fields :: "json list" where
  "repeated_id_fields =
     [name_field, group_field ''symptoms'' [''pain'', ''name'', ''pain''], name_field]"

text \<open>A specification without \<^verbatim>\<open>metadata\<close> whose two fields share the id \<open>name\<close>.\<close>

definition spec_without_metadata :: json where
  "spec_without_metadata = JObj
     [(''branding'', example_branding), (''document_layout'', JObj []),
      (''sections'', JList [JObj [(''id'', JStr ''s1''), (''title'', JStr ''Intake''),
                                 (''fields'', JList [name_field, name_field])]])]"

section \<open>What the claims about planning and resolution speak of\<close>

















text \<open>
  The numbers of matches that the searches for the placeholders return, one after the
  other on the document as the replacements leave it, when every search returns and no
  field type is unknown; the error that a number of matches stands for; the field types
  \<^verbatim>\<open>replace_single_marker\<close> knows; and a measure that every replacement decreases.
\<close>

fun found_counts :: "'w word_api \<Rightarrow> PlaceholderSpec list \<Rightarrow> 'w \<Rightarrow> (nat list \<times> 'w) option" where
  "found_counts api [] w = Some ([], w)"
| "found_counts api (p # ps) w =
     (case replace_marker_with_control api w p of
        Some (Inr (n, w')) \<Rightarrow>
          (case found_counts api ps w' of
             Some (ns, w'') \<Rightarrow> Some (n # ns, w'')
           | None \<Rightarrow> None)
      | _ \<Rightarrow> None)"

definition count_error :: "PlaceholderSpec \<Rightarrow> nat \<Rightarrow> marker_error list" where
  "count_error p n =
     (if n = 0 then [MarkerNotFound (marker p)]
      else if n > 1 then [MarkerRepeated n (marker p)]
      else [])"

definition resolvable_type :: "json \<Rightarrow> bool" where
  "resolvable_type t =
     (t \<in> set [JStr ''signature_line'', JStr ''text_short'', JStr ''text_long'', JStr ''checkbox'',
               JStr ''dropdown'', JStr ''date''])"

definition search_decreases ::
  "'w word_api \<Rightarrow> (PlaceholderSpec \<Rightarrow> 'w \<Rightarrow> nat \<Rightarrow> nat) \<Rightarrow> PlaceholderSpec list \<Rightarrow> bool" where
  "search_decreases api rank placeholders \<longleftrightarrow>
     (\<forall>p\<in>set placeholders. \<forall>w cursor found w'.
         cursor \<le> content_end api w
         \<longrightarrow> find_execute api w cursor (content_end api w) (marker p) = Some found
         \<longrightarrow> replace_single_marker api w (fst found) (snd found) p = Inr w'
         \<longrightarrow> rank p w' (max (snd found) (cursor + 1)) < rank p w cursor)"

text \<open>
  A stand-in for Word: the document is its text and the list of the controls inserted,
  each with its position; the search finds the first occurrence from the start of the
  range on; a control takes no room in the text.
\<close>

fun find_in :: "string \<Rightarrow> string \<Rightarrow> nat \<Rightarrow> nat option" where
  "find_in m [] off = (if m = [] then Some off else None)"
| "find_in m (c # cs) off = (if prefix m (c # cs) then Some off else find_in m cs (Suc off))"

definition text_api :: "(string \<times> (nat \<times> control) list) word_api" where
  "text_api =
     \<lparr>content_end = (\<lambda>w. length (fst w)),
      find_execute = (\<lambda>w range_start range_end m.
         map_option (\<lambda>s. (s, s + length m)) (find_in m (drop range_start (fst w)) range_start)),
      set_range_text = (\<lambda>w range_start range_end t.
         (take range_start (fst w) @ t @ drop range_end (fst w), snd w)),
      add_content_control = (\<lambda>w pos c. (fst w, snd w @ [(pos, c)]))\<rparr>"

definition unresolved_text :: string where
  "unresolved_text =
     ''Naam [[FIELD:name]] Klachten [[FIELD:pain]] pijn, en nog eens [[FIELD:pain]] pijn''"

definition resolved_text :: string where
  "resolved_text = ''Naam [[FIELD:name]] Klachten [[FIELD:pain]] pijn [[FIELD:fatigue]] moe''"

section \<open>Properties\<close>

subsection \<open>Markers\<close>

text \<open>
  C5. The marker of an id is the id between \<^verbatim>\<open>[[FIELD:\<close> and \<^verbatim>\<open>]]\<close>, a function of the
  id alone; distinct ids have distinct markers; and the id is read back from the marker by
  dropping the eight leading and the two trailing characters.
\<close>

theorem marker_for_injective_reversible:
  "marker_for ident = ''[[FIELD:'' @ ident @ '']]'' \<and> inj marker_for
   \<and> take (length (marker_for ident) - 10) (drop 8 (marker_for ident)) = ident"
  by (simp add: marker_for_def inj_def)

subsection \<open>Validation\<close>

text \<open>
  C4. When the root is a mapping and at least one of the four top-level keys is absent,
  \<^verbatim>\<open>validate_spec\<close> raises \<^verbatim>\<open>SpecValidationError\<close> with exactly one missing-key error for
  each absent key, in the order of \<^verbatim>\<open>TOP_LEVEL_REQUIRED_KEYS\<close>, and nothing else.
\<close>

theorem validate_spec_missing_top_level_keys:
  assumes "list_ex (\<lambda>key. map_of d key = None) TOP_LEVEL_REQUIRED_KEYS"
  shows "validate_spec str_of (JObj d) =
         Inl (SpecValidationError
               (map MissingTopLevelKey
                 (filter (\<lambda>key. map_of d key = None) TOP_LEVEL_REQUIRED_KEYS)))"
proof -
  from assms have "filter (\<lambda>key. map_of d key = None) TOP_LEVEL_REQUIRED_KEYS \<noteq> []"
    by (simp add: filter_empty_conv list_ex_iff)
  then show ?thesis
    by (simp add: validate_spec_def Let_def)
qed

theorem validate_spec_missing_top_level_keys_witness:
  "validate_spec no_str (JObj [(''metadata'', JObj []), (''sections'', JList [])]) =
   Inl (SpecValidationError [MissingTopLevelKey ''branding'', MissingTopLevelKey ''document_layout''])"
  using validate_spec_missing_top_level_keys
          [of "[(''metadata'', JObj []), (''sections'', JList [])]" no_str]
  by (simp add: TOP_LEVEL_REQUIRED_KEYS_def)

text \<open>
  C9, at the inputs where the code departs from it. A \<^verbatim>\<open>margin_cm\<close> that is NaN, and one
  that is the boolean \<^verbatim>\<open>true\<close>, pass validation although neither is a positive number; a
  margin of zero is reported.
\<close>

theorem validate_spec_margin_nan_and_true_accepted:
  "validate_spec no_str (example_spec (JObj [(''margin_cm'', JFloat NaN)]) example_fields) = Inr ()
   \<and> validate_spec no_str (example_spec (JObj [(''margin_cm'', JBool True)]) example_fields) = Inr ()
   \<and> validate_spec no_str (example_spec (JObj [(''margin_cm'', JInt 0)]) example_fields)
       = Inl (SpecValidationError [MarginNotPositive])"
  by code_simp

subsection \<open>The validator's walk\<close>

lemma errors_add_error [simp]: "errors (add_error e st) = errors st @ [e]"
  by (simp add: add_error_def)

lemma seen_add_error [simp]: "seen_ids (add_error e st) = seen_ids st"
  by (simp add: add_error_def)

lemma errors_register_id:
  "errors (register_id dup s st) = errors st @ (if s \<in> seen_ids st then [dup s] else [])"
  by (simp add: register_id_def)

lemma seen_register_id [simp]: "seen_ids (register_id dup s st) = insert s (seen_ids st)"
  by (auto simp: register_id_def)

lemma validate_option_errors:
  "\<exists>new. errors (validate_option si fi oi opt st) = errors st @ new \<and> list_all is_option_error new"
  by (auto simp: validate_option_def errors_register_id Let_def split: json.splits option.splits)

lemma validate_options_errors:
  "\<exists>new. errors (validate_options si fi oi opts st) = errors st @ new \<and> list_all is_option_error new"
proof (induction opts arbitrary: oi st)
  case Nil
  then show ?case by simp
next
  case (Cons opt opts)
  obtain n1 where n1: "errors (validate_option si fi oi opt st) = errors st @ n1"
      "list_all is_option_error n1"
    using validate_option_errors by blast
  obtain n2 where n2: "errors (validate_options si fi (Suc oi) opts (validate_option si fi oi opt st))
      = errors (validate_option si fi oi opt st) @ n2" "list_all is_option_error n2"
    using Cons.IH by blast
  from n1 n2 show ?case by (intro exI[of _ "n1 @ n2"]) simp
qed

lemma check_dropdown_options_errors:
  "\<exists>new. errors (check_dropdown_options si fi opts st) = errors st @ new \<and> list_all is_option_error new"
  by (auto simp: check_dropdown_options_def split: json.splits option.splits)

lemma check_group_options_errors:
  "\<exists>new. errors (check_group_options si fi opts st) = errors st @ new \<and> list_all is_option_error new"
  using validate_options_errors
  by (auto simp: check_group_options_def split: json.splits option.splits)

lemma check_field_body_errors:
  assumes "hashable ftype"
  shows "\<exists>st' rest. check_field_body si fi fd ident ftype req lab ht st = Inr st'
     \<and> errors st' = errors st
         @ (if ident \<in> seen_ids st then [DuplicateFieldId ident] else [])
         @ (if \<not> type_allowed ftype then [FieldTypeInvalid si fi ftype] else [])
         @ (if \<not> is_bool req then [FieldRequiredInvalid si fi] else [])
         @ (if \<not> nonblank_str lab then [FieldLabelInvalid si fi] else [])
         @ (if \<not> is_str ht then [FieldHelpTextInvalid si fi] else [])
         @ rest
     \<and> list_all is_option_error rest"
proof -
  define s1 where "s1 = register_id DuplicateFieldId ident st"
  define s2 where "s2 = (if \<not> type_allowed ftype then add_error (FieldTypeInvalid si fi ftype) s1 else s1)"
  define s3 where "s3 = (if \<not> is_bool req then add_error (FieldRequiredInvalid si fi) s2 else s2)"
  define s4 where "s4 = (if \<not> nonblank_str lab then add_error (FieldLabelInvalid si fi) s3 else s3)"
  define s5 where "s5 = (if \<not> is_str ht then add_error (FieldHelpTextInvalid si fi) s4 else s4)"
  define s6 where "s6 = (if ftype = JStr ''dropdown''
                     then check_dropdown_options si fi (map_of fd ''options'') s5 else s5)"
  define s7 where "s7 = (if ftype = JStr ''checkbox_group''
                     then check_group_options si fi (map_of fd ''options'') s6 else s6)"
  have r: "check_field_body si fi fd ident ftype req lab ht st = Inr s7"
    using assms by (simp add: check_field_body_def Let_def s1_def s2_def s3_def s4_def s5_def s6_def s7_def)
  have e5: "errors s5 = errors st
         @ (if ident \<in> seen_ids st then [DuplicateFieldId ident] else [])
         @ (if \<not> type_allowed ftype then [FieldTypeInvalid si fi ftype] else [])
         @ (if \<not> is_bool req then [FieldRequiredInvalid si fi] else [])
         @ (if \<not> nonblank_str lab then [FieldLabelInvalid si fi] else [])
         @ (if \<not> is_str ht then [FieldHelpTextInvalid si fi] else [])"
    by (simp add: s1_def s2_def s3_def s4_def s5_def errors_register_id)
  have "\<exists>n6. errors s6 = errors s5 @ n6 \<and> list_all is_option_error n6"
    using check_dropdown_options_errors[of si fi "map_of fd ''options''" s5]
    by (cases "ftype = JStr ''dropdown''") (simp_all add: s6_def)
  then obtain n6 where n6: "errors s6 = errors s5 @ n6" "list_all is_option_error n6"
    by blast
  have "\<exists>n7. errors s7 = errors s6 @ n7 \<and> list_all is_option_error n7"
    using check_group_options_errors[of si fi "map_of fd ''options''" s6]
    by (cases "ftype = JStr ''checkbox_group''") (simp_all add: s7_def)
  then obtain n7 where n7: "errors s7 = errors s6 @ n7" "list_all is_option_error n7"
    by blast
  show ?thesis
    using r e5 n6 n7 by (intro exI[of _ s7] exI[of _ "n6 @ n7"]) simp
qed

lemma missing_keys_fold:
  "errors (foldl (\<lambda>s k. if map_of fd k = None then add_error (mk k) s else s) st ks)
   = errors st @ map mk (filter (\<lambda>k. map_of fd k = None) ks)"
  by (induction ks arbitrary: st) auto

lemma all_keys_present:
  assumes "map_of fd ''id'' = Some fid" "map_of fd ''label'' = Some lab"
    "map_of fd ''type'' = Some ftype" "map_of fd ''required'' = Some req"
    "map_of fd ''help_text'' = Some ht"
  shows "foldl (\<lambda>s k. if map_of fd k = None then add_error (mk k) s else s) st FIELD_REQUIRED_KEYS = st"
    and "\<not> list_ex (\<lambda>k. map_of fd k = None) FIELD_REQUIRED_KEYS"
  using assms by (simp_all add: FIELD_REQUIRED_KEYS_def)

lemma validate_field_good_id:
  assumes "map_of fd ''id'' = Some (JStr ident)" "map_of fd ''label'' = Some lab"
    "map_of fd ''type'' = Some ftype" "map_of fd ''required'' = Some req"
    "map_of fd ''help_text'' = Some ht" "py_strip ident \<noteq> []"
  shows "validate_field si fi (JObj fd) st = check_field_body si fi fd ident ftype req lab ht st"
  using assms all_keys_present[OF assms(1-5)]
  by (simp add: validate_field_def Let_def)

lemma validate_field_bad_id:
  assumes "map_of fd ''id'' = Some fid" "map_of fd ''label'' = Some lab"
    "map_of fd ''type'' = Some ftype" "map_of fd ''required'' = Some req"
    "map_of fd ''help_text'' = Some ht" "\<not> nonblank_str fid"
  shows "validate_field si fi (JObj fd) st = Inr (add_error (FieldIdInvalid si fi) st)"
  using assms all_keys_present[OF assms(1-5)]
  by (cases fid) (simp_all add: validate_field_def Let_def)

lemma validate_field_missing_key:
  assumes "list_ex (\<lambda>k. map_of fd k = None) FIELD_REQUIRED_KEYS"
  shows "\<exists>st'. validate_field si fi (JObj fd) st = Inr st'
     \<and> errors st' = errors st @ map (FieldMissingKey si fi)
                        (filter (\<lambda>k. map_of fd k = None) FIELD_REQUIRED_KEYS)"
  using assms by (simp add: validate_field_def Let_def missing_keys_fold)

lemma dup_count_append [simp]: "dup_count x (a @ b) = dup_count x a + dup_count x b"
  by (simp add: dup_count_def)

lemma dup_count_Nil [simp]: "dup_count x [] = 0"
  by (simp add: dup_count_def)

lemma dup_count_single [simp]: "dup_count x [e] = (if names_duplicate x e then 1 else 0)"
  by (simp add: dup_count_def)

lemma excess_Nil [simp]: "excess seen [] x = 0"
  by (simp add: excess_def)

lemma count_list_pos: "x \<in> set ids \<Longrightarrow> 0 < count_list ids x"
  by (induction ids) auto

lemma excess_append:
  "excess seen (a @ b) x = excess seen a x + excess (seen \<union> set a) b x"
  using count_list_pos[of x a] by (auto simp: excess_def count_list_0_iff)

lemma tracks_refl [simp]: "tracks st st []"
  by (simp add: tracks_def)

lemma tracks_trans: "tracks a b i1 \<Longrightarrow> tracks b c i2 \<Longrightarrow> tracks a c (i1 @ i2)"
  by (auto simp: tracks_def excess_append)

lemma tracks_add_error:
  "(\<And>x. \<not> names_duplicate x e) \<Longrightarrow> tracks st st' ids \<Longrightarrow> tracks st (add_error e st') ids"
  by (simp add: tracks_def)

lemma tracks_add_error0:
  "(\<And>x. \<not> names_duplicate x e) \<Longrightarrow> tracks st (add_error e st) []"
  by (simp add: tracks_add_error)

lemma tracks_register_field: "tracks st (register_id DuplicateFieldId s st) [s]"
  by (auto simp: tracks_def errors_register_id excess_def)

lemma tracks_register_option: "tracks st (register_id DuplicateOptionId s st) [s]"
  by (auto simp: tracks_def errors_register_id excess_def)

lemma tracks_if_add:
  "(\<And>x. \<not> names_duplicate x e) \<Longrightarrow> tracks st (if c then add_error e st else st) []"
  by (simp add: tracks_add_error0)

lemma validate_option_tracks:
  "tracks st (validate_option si fi oi opt st) (option_id_of opt)"
proof (cases opt)
  case (JObj od)
  show ?thesis
  proof (cases "map_of od ''id''")
    case None
    with JObj show ?thesis
      by (simp add: validate_option_def option_id_of_def tracks_add_error0)
  next
    case (Some oid)
    show ?thesis
    proof (cases "map_of od ''label''")
      case None
      with JObj Some show ?thesis
        by (simp add: validate_option_def option_id_of_def tracks_add_error0 split: json.splits)
    next
      case lab: (Some olab)
      show ?thesis
      proof (cases "\<exists>s. oid = JStr s \<and> py_strip s \<noteq> []")
        case True
        then obtain s where s: "oid = JStr s" "py_strip s \<noteq> []" by blast
        have "tracks st (register_id DuplicateOptionId s st) ([s] @ [])"
          by (simp add: tracks_register_option)
        moreover have "tracks (register_id DuplicateOptionId s st)
            (if \<not> nonblank_str olab
             then add_error (OptionLabelInvalid si fi oi) (register_id DuplicateOptionId s st)
             else register_id DuplicateOptionId s st) []"
          by (rule tracks_if_add) simp
        ultimately have "tracks st
            (if \<not> nonblank_str olab
             then add_error (OptionLabelInvalid si fi oi) (register_id DuplicateOptionId s st)
             else register_id DuplicateOptionId s st) ([s] @ [])"
          using tracks_trans by (metis append_Nil2)
        with JObj Some lab s show ?thesis
          by (simp add: validate_option_def option_id_of_def Let_def)
      next
        case False
        with JObj Some lab show ?thesis
          by (cases oid) (simp_all add: validate_option_def option_id_of_def tracks_add_error0)
      qed
    qed
  qed
qed (simp_all add: validate_option_def option_id_of_def tracks_add_error0)

lemma validate_options_tracks:
  "tracks st (validate_options si fi oi opts st) (concat (map option_id_of opts))"
proof (induction opts arbitrary: oi st)
  case Nil
  then show ?case by simp
next
  case (Cons opt opts)
  show ?case
    using tracks_trans[OF validate_option_tracks[of st si fi oi opt] Cons.IH]
    by simp
qed

lemma check_group_options_tracks:
  "tracks st (check_group_options si fi opts st) (group_option_ids opts)"
  by (auto simp: check_group_options_def group_option_ids_def tracks_add_error0
        validate_options_tracks split: option.splits json.splits)

lemma check_dropdown_options_tracks:
  "tracks st (check_dropdown_options si fi opts st) []"
  by (auto simp: check_dropdown_options_def tracks_add_error0 split: option.splits json.splits)

lemma tracks_step0: "tracks a b ids \<Longrightarrow> tracks b c [] \<Longrightarrow> tracks a c ids"
  using tracks_trans by (metis append_Nil2)

lemma check_field_body_tracks:
  assumes "check_field_body si fi fd ident ftype req lab ht st = Inr st'"
  shows "tracks st st'
           (ident # (if ftype = JStr ''checkbox_group''
                     then group_option_ids (map_of fd ''options'') else []))"
proof -
  define s1 where "s1 = register_id DuplicateFieldId ident st"
  define s2 where "s2 = (if \<not> type_allowed ftype then add_error (FieldTypeInvalid si fi ftype) s1 else s1)"
  define s3 where "s3 = (if \<not> is_bool req then add_error (FieldRequiredInvalid si fi) s2 else s2)"
  define s4 where "s4 = (if \<not> nonblank_str lab then add_error (FieldLabelInvalid si fi) s3 else s3)"
  define s5 where "s5 = (if \<not> is_str ht then add_error (FieldHelpTextInvalid si fi) s4 else s4)"
  define s6 where "s6 = (if ftype = JStr ''dropdown''
                     then check_dropdown_options si fi (map_of fd ''options'') s5 else s5)"
  define s7 where "s7 = (if ftype = JStr ''checkbox_group''
                     then check_group_options si fi (map_of fd ''options'') s6 else s6)"
  have r: "st' = s7"
    using assms
    by (simp add: check_field_body_def Let_def s1_def s2_def s3_def s4_def s5_def s6_def s7_def
          split: if_splits)
  have t1: "tracks st s1 [ident]" by (simp add: s1_def tracks_register_field)
  have t2: "tracks s1 s2 []" unfolding s2_def by (rule tracks_if_add) simp
  have t3: "tracks s2 s3 []" unfolding s3_def by (rule tracks_if_add) simp
  have t4: "tracks s3 s4 []" unfolding s4_def by (rule tracks_if_add) simp
  have t5: "tracks s4 s5 []" unfolding s5_def by (rule tracks_if_add) simp
  have t6: "tracks s5 s6 []" by (simp add: s6_def check_dropdown_options_tracks)
  have t7: "tracks s6 s7 (if ftype = JStr ''checkbox_group''
                     then group_option_ids (map_of fd ''options'') else [])"
    by (simp add: s7_def check_group_options_tracks)
  have "tracks st s6 [ident]"
    using t1 t2 t3 t4 t5 t6 by (blast intro: tracks_step0)
  from tracks_trans[OF this t7] r show ?thesis by simp
qed

lemma tracks_missing_fold:
  "(\<And>k x. \<not> names_duplicate x (mk k)) \<Longrightarrow>
   tracks st (foldl (\<lambda>s k. if map_of fd k = None then add_error (mk k) s else s) st ks) []"
proof (induction ks arbitrary: st)
  case Nil
  then show ?case by simp
next
  case (Cons k ks)
  have "tracks st (if map_of fd k = None then add_error (mk k) st else st) []"
    by (rule tracks_if_add) (simp add: Cons.prems)
  from tracks_step0[OF this Cons.IH[OF Cons.prems]] show ?case by simp
qed

lemma validate_field_tracks:
  assumes "validate_field si fi f st = Inr st'"
  shows "tracks st st' (field_ids f)"
proof (cases f)
  case (JObj fd)
  let ?st1 = "foldl (\<lambda>s k. if map_of fd k = None then add_error (FieldMissingKey si fi k) s else s)
                st FIELD_REQUIRED_KEYS"
  have t1: "tracks st ?st1 []" by (rule tracks_missing_fold) simp
  show ?thesis
  proof (cases "list_ex (\<lambda>k. map_of fd k = None) FIELD_REQUIRED_KEYS")
    case True
    with assms JObj have "st' = ?st1" by (simp add: validate_field_def Let_def)
    with t1 True JObj show ?thesis by (simp add: field_ids_def)
  next
    case False
    then obtain fid lab ftype req ht where k:
      "map_of fd ''id'' = Some fid" "map_of fd ''label'' = Some lab"
      "map_of fd ''type'' = Some ftype" "map_of fd ''required'' = Some req"
      "map_of fd ''help_text'' = Some ht"
      by (auto simp: FIELD_REQUIRED_KEYS_def)
    show ?thesis
    proof (cases "nonblank_str fid")
      case True
      then obtain ident where i: "fid = JStr ident" "py_strip ident \<noteq> []"
        by (cases fid) auto
      from validate_field_good_id[OF k(1)[unfolded i(1)] k(2-5) i(2)] assms JObj
      have "check_field_body si fi fd ident ftype req lab ht st = Inr st'" by simp
      from check_field_body_tracks[OF this] False JObj k i show ?thesis
        by (simp add: field_ids_def)
    next
      case nb: False
      from validate_field_bad_id[OF k nb] assms JObj
      have "st' = add_error (FieldIdInvalid si fi) st" by simp
      moreover have "field_ids f = []"
        using nb False JObj k by (cases fid) (simp_all add: field_ids_def)
      ultimately show ?thesis by (simp add: tracks_add_error0)
    qed
  qed
qed (use assms in \<open>auto simp: validate_field_def field_ids_def tracks_add_error0\<close>)

lemma check_field_body_total:
  "(\<exists>st'. check_field_body si fi fd ident ftype req lab ht st = Inr st')
   \<or> check_field_body si fi fd ident ftype req lab ht st = Inl (Raised TypeError)"
proof (cases "hashable ftype")
  case True
  from check_field_body_errors[OF this] show ?thesis by blast
next
  case False
  then show ?thesis by (simp add: check_field_body_def)
qed

lemma validate_field_total:
  "(\<exists>st'. validate_field si fi f st = Inr st')
   \<or> validate_field si fi f st = Inl (Raised TypeError)"
proof (cases f)
  case (JObj fd)
  show ?thesis
  proof (cases "list_ex (\<lambda>k. map_of fd k = None) FIELD_REQUIRED_KEYS")
    case True
    from validate_field_missing_key[OF this] JObj show ?thesis by blast
  next
    case False
    then obtain fid lab ftype req ht where k:
      "map_of fd ''id'' = Some fid" "map_of fd ''label'' = Some lab"
      "map_of fd ''type'' = Some ftype" "map_of fd ''required'' = Some req"
      "map_of fd ''help_text'' = Some ht"
      by (auto simp: FIELD_REQUIRED_KEYS_def)
    show ?thesis
    proof (cases "nonblank_str fid")
      case True
      then obtain ident where i: "fid = JStr ident" "py_strip ident \<noteq> []"
        by (cases fid) auto
      from validate_field_good_id[OF k(1)[unfolded i(1)] k(2-5) i(2)] JObj
        check_field_body_total[of si fi fd ident ftype req lab ht st]
      show ?thesis by simp
    next
      case nb: False
      from validate_field_bad_id[OF k nb] JObj show ?thesis by simp
    qed
  qed
qed (simp_all add: validate_field_def)

lemma validate_fields_tracks:
  "validate_fields si fi fs st = Inr st' \<Longrightarrow> tracks st st' (concat (map field_ids fs))"
proof (induction fs arbitrary: fi st)
  case Nil
  then show ?case by simp
next
  case (Cons f fs)
  from Cons.prems obtain s1 where s1: "validate_field si fi f st = Inr s1"
      "validate_fields si (Suc fi) fs s1 = Inr st'"
    by (auto split: sum.splits)
  from tracks_trans[OF validate_field_tracks[OF s1(1)] Cons.IH[OF s1(2)]]
  show ?case by simp
qed

lemma validate_section_JObj:
  "\<exists>s3. tracks st s3 []
     \<and> validate_section si (JObj sd) st =
        (case map_of sd ''fields'' of
                Some (JList field_list) \<Rightarrow>
                  if field_list = [] then Inr (add_error (SectionFieldsInvalid si) s3)
                  else validate_fields si 1 field_list s3
              | _ \<Rightarrow> Inr (add_error (SectionFieldsInvalid si) s3))"
proof -
  define s1 where "s1 = foldl (\<lambda>s k. if map_of sd k = None then add_error (SectionMissingKey si k) s else s)
                      st [''id'', ''title'', ''fields'']"
  define s2 where "s2 = (case map_of sd ''id'' of
                       Some v \<Rightarrow> if \<not> nonblank_str v then add_error (SectionIdInvalid si) s1 else s1
                     | None \<Rightarrow> add_error (SectionIdInvalid si) s1)"
  define s3 where "s3 = (case map_of sd ''title'' of
                       Some v \<Rightarrow> if \<not> nonblank_str v then add_error (SectionTitleInvalid si) s2 else s2
                     | None \<Rightarrow> add_error (SectionTitleInvalid si) s2)"
  have t1: "tracks st s1 []" unfolding s1_def by (rule tracks_missing_fold) simp
  have t2: "tracks s1 s2 []" by (simp add: s2_def tracks_add_error0 split: option.splits)
  have t3: "tracks s2 s3 []" by (simp add: s3_def tracks_add_error0 split: option.splits)
  have t: "tracks st s3 []" using t1 t2 t3 by (blast intro: tracks_step0)
  have r: "validate_section si (JObj sd) st =
        (case map_of sd ''fields'' of
                Some (JList field_list) \<Rightarrow>
                  if field_list = [] then Inr (add_error (SectionFieldsInvalid si) s3)
                  else validate_fields si 1 field_list s3
              | _ \<Rightarrow> Inr (add_error (SectionFieldsInvalid si) s3))"
    unfolding validate_section_def Let_def s1_def s2_def s3_def
    by (simp only: json.case)
  from t r show ?thesis by blast
qed

lemma validate_section_tracks:
  assumes "validate_section si sec st = Inr st'"
  shows "tracks st st' (section_ids sec)"
proof (cases sec)
  case (JObj sd)
  from validate_section_JObj[of st si sd] obtain s3 where t: "tracks st s3 []" and
    r: "validate_section si (JObj sd) st =
        (case map_of sd ''fields'' of
                Some (JList field_list) \<Rightarrow>
                  if field_list = [] then Inr (add_error (SectionFieldsInvalid si) s3)
                  else validate_fields si 1 field_list s3
              | _ \<Rightarrow> Inr (add_error (SectionFieldsInvalid si) s3))"
    by blast
  show ?thesis
  proof (cases "\<exists>fl. map_of sd ''fields'' = Some (JList fl) \<and> fl \<noteq> []")
    case True
    then obtain fl where fl: "map_of sd ''fields'' = Some (JList fl)" "fl \<noteq> []" by blast
    with r assms JObj have "validate_fields si 1 fl s3 = Inr st'" by simp
    from tracks_trans[OF t validate_fields_tracks[OF this]] fl JObj show ?thesis
      by (simp add: section_ids_def)
  next
    case False
    with r assms JObj have st': "st' = add_error (SectionFieldsInvalid si) s3"
      by (auto split: option.splits json.splits if_splits)
    from False have "section_ids sec = []"
      by (auto simp: section_ids_def JObj split: option.splits json.splits)
    with st' t show ?thesis by (simp add: tracks_add_error)
  qed
qed (use assms in \<open>auto simp: validate_section_def section_ids_def tracks_add_error0\<close>)

lemma validate_sections_tracks:
  "validate_sections si secs st = Inr st' \<Longrightarrow> tracks st st' (concat (map section_ids secs))"
proof (induction secs arbitrary: si st)
  case Nil
  then show ?case by simp
next
  case (Cons sec secs)
  from Cons.prems obtain s1 where s1: "validate_section si sec st = Inr s1"
      "validate_sections (Suc si) secs s1 = Inr st'"
    by (auto split: sum.splits)
  from tracks_trans[OF validate_section_tracks[OF s1(1)] Cons.IH[OF s1(2)]]
  show ?case by simp
qed

lemma check_shapes_tracks: "tracks st (check_shapes m b l s st) []"
proof -
  define s1 where "s1 = (if \<not> is_dict m then add_error MetadataNotObject st else st)"
  define s2 where "s2 = (if \<not> is_dict b then add_error BrandingNotObject s1 else s1)"
  define s3 where "s3 = (if \<not> is_dict l then add_error LayoutNotObject s2 else s2)"
  define s4 where "s4 = (if \<not> nonempty_list s then add_error SectionsNotList s3 else s3)"
  have "tracks st s1 []" "tracks s1 s2 []" "tracks s2 s3 []" "tracks s3 s4 []"
    unfolding s1_def s2_def s3_def s4_def by (rule tracks_if_add, simp)+
  then have "tracks st s4 []" by (blast intro: tracks_step0)
  moreover have "check_shapes m b l s st = s4"
    by (simp add: check_shapes_def Let_def s1_def s2_def s3_def s4_def)
  ultimately show ?thesis by simp
qed

lemma check_layout_tracks: "tracks st (check_layout l st) []"
  by (auto simp: check_layout_def Let_def tracks_add_error0 split: json.splits)

lemma check_color_tracks: "tracks st (check_color str_of bd k st) []"
  by (auto simp: check_color_def tracks_add_error0 split: option.splits)

lemma check_colors_tracks:
  "tracks st (foldl (\<lambda>s k. check_color str_of bd k s) st ks) []"
proof (induction ks arbitrary: st)
  case Nil
  then show ?case by simp
next
  case (Cons k ks)
  from tracks_step0[OF check_color_tracks Cons.IH] show ?case by simp
qed

lemma check_branding_string_tracks:
  "check_branding_string bd k st = Inr st' \<Longrightarrow> tracks st st' []"
  by (auto simp: check_branding_string_def tracks_add_error0 split: option.splits json.splits)

lemma check_branding_tracks:
  assumes "check_branding str_of b st = Inr st'"
  shows "tracks st st' []"
proof (cases b)
  case (JObj bd)
  let ?s0 = "foldl (\<lambda>s k. check_color str_of bd k s) st
                      [''primary_color'', ''secondary_color'', ''accent_color'', ''surface_color'',
                       ''text_color'']"
  from assms JObj obtain s1 s2 where s:
    "check_branding_string bd ''heading_font'' ?s0 = Inr s1"
    "check_branding_string bd ''body_font'' s1 = Inr s2"
    "check_branding_string bd ''logo_path'' s2 = Inr st'"
    by (auto simp: check_branding_def Let_def split: sum.splits)
  have "tracks st ?s0 []" by (rule check_colors_tracks)
  with s show ?thesis
    by (blast intro: tracks_step0 check_branding_string_tracks)
qed (use assms in \<open>auto simp: check_branding_def\<close>)

lemma check_sections_tracks:
  "check_sections secs st = Inr st' \<Longrightarrow>
   tracks st st' (case secs of JList l \<Rightarrow> concat (map section_ids l) | _ \<Rightarrow> [])"
  by (cases secs) (auto simp: check_sections_def validate_sections_tracks)

lemma not_distinct_count: "\<not> distinct xs \<Longrightarrow> \<exists>y. 1 < count_list xs y"
proof (induction xs)
  case Nil
  then show ?case by simp
next
  case (Cons x xs)
  show ?case
  proof (cases "x \<in> set xs")
    case True
    then have "0 < count_list xs x" by (rule count_list_pos)
    then have "1 < count_list (x # xs) x" by simp
    then show ?thesis by blast
  next
    case False
    with Cons.prems have "\<not> distinct xs" by simp
    from Cons.IH[OF this] obtain y where "1 < count_list xs y" by blast
    then have "1 < count_list (x # xs) y" by simp
    then show ?thesis by blast
  qed
qed

lemma check_branding_string_raised:
  "check_branding_string bd k st = Inl x \<Longrightarrow> \<exists>e. x = Raised e"
  by (auto simp: check_branding_string_def split: option.splits json.splits)

lemma check_branding_raised:
  assumes "check_branding str_of b st = Inl x"
  shows "\<exists>e. x = Raised e"
proof (cases b)
  case (JObj bd)
  with assms show ?thesis
    unfolding check_branding_def Let_def
    by (auto split: sum.splits dest: check_branding_string_raised)
qed (use assms in \<open>auto simp: check_branding_def\<close>)

lemma validate_fields_raised:
  "validate_fields si fi fs st = Inl x \<Longrightarrow> \<exists>e. x = Raised e"
proof (induction fs arbitrary: fi st)
  case Nil
  then show ?case by simp
next
  case (Cons f fs)
  show ?case
  proof (cases "validate_field si fi f st")
    case (Inl y)
    with validate_field_total[of si fi f st] Cons.prems show ?thesis by auto
  next
    case (Inr s1)
    with Cons.prems have "validate_fields si (Suc fi) fs s1 = Inl x" by simp
    then show ?thesis by (rule Cons.IH)
  qed
qed

lemma validate_section_raised:
  assumes "validate_section si sec st = Inl x"
  shows "\<exists>e. x = Raised e"
proof (cases sec)
  case (JObj sd)
  from validate_section_JObj[of st si sd] obtain s3 where
    r: "validate_section si (JObj sd) st =
        (case map_of sd ''fields'' of
                Some (JList field_list) \<Rightarrow>
                  if field_list = [] then Inr (add_error (SectionFieldsInvalid si) s3)
                  else validate_fields si 1 field_list s3
              | _ \<Rightarrow> Inr (add_error (SectionFieldsInvalid si) s3))"
    by blast
  from assms[unfolded JObj r] show ?thesis
    by (auto split: option.splits json.splits if_splits dest: validate_fields_raised)
qed (use assms in \<open>auto simp: validate_section_def\<close>)

lemma validate_sections_raised:
  "validate_sections si secs st = Inl x \<Longrightarrow> \<exists>e. x = Raised e"
proof (induction secs arbitrary: si st)
  case Nil
  then show ?case by simp
next
  case (Cons sec secs)
  show ?case
  proof (cases "validate_section si sec st")
    case (Inl y)
    with validate_section_raised[OF Inl] Cons.prems show ?thesis by auto
  next
    case (Inr s1)
    with Cons.prems have "validate_sections (Suc si) secs s1 = Inl x" by simp
    then show ?thesis by (rule Cons.IH)
  qed
qed

lemma validate_spec_run:
  assumes keys: "map_of d ''metadata'' = Some m" "map_of d ''branding'' = Some b"
      "map_of d ''document_layout'' = Some l" "map_of d ''sections'' = Some s"
    and na: "\<not> aborted (validate_spec str_of (JObj d))"
  shows "\<exists>s2 s3. check_branding str_of b
                   (check_layout l (check_shapes m b l s \<lparr>seen_ids = {}, errors = []\<rparr>)) = Inr s2
           \<and> check_sections s s2 = Inr s3
           \<and> validate_spec str_of (JObj d)
               = (if errors s3 \<noteq> [] then Inl (SpecValidationError (errors s3)) else Inr ())"
proof -
  have nm: "filter (\<lambda>key. map_of d key = None) TOP_LEVEL_REQUIRED_KEYS = []"
    using keys by (simp add: TOP_LEVEL_REQUIRED_KEYS_def)
  let ?s1 = "check_layout l (check_shapes m b l s \<lparr>seen_ids = {}, errors = []\<rparr>)"
  have v: "validate_spec str_of (JObj d) =
      (case check_branding str_of b ?s1 of
         Inl e \<Rightarrow> Inl e
       | Inr st \<Rightarrow>
          (case check_sections s st of
             Inl e \<Rightarrow> Inl e
           | Inr st \<Rightarrow> if errors st \<noteq> [] then Inl (SpecValidationError (errors st)) else Inr ()))"
    using keys nm by (simp add: validate_spec_def Let_def)
  have raised: "\<exists>e. x = Raised e" if "check_branding str_of b st = Inl x" for x st
    using that by (rule check_branding_raised)
  have raised_c: "\<exists>e. x = Raised e" if "check_sections s st = Inl x" for x st
    using that by (auto simp: check_sections_def split: json.splits dest: validate_sections_raised)
  show ?thesis
  proof (cases "check_branding str_of b ?s1")
    case (Inl x)
    with raised[OF Inl] v na show ?thesis by auto
  next
    case (Inr s2)
    show ?thesis
    proof (cases "check_sections s s2")
      case (Inl x)
      with raised_c[OF Inl] v Inr na show ?thesis by auto
    next
      case s3: (Inr s3)
      with v Inr show ?thesis by simp
    qed
  qed
qed

text \<open>
  C1 fails as stated: with a top-level key absent, \<^verbatim>\<open>validate_spec\<close> stops at line 107 and
  reports the missing key only, whatever ids repeat below.
\<close>

theorem duplicate_ids_unreported_without_metadata:
  "count_list (checked_ids spec_without_metadata) ''name'' = 2
   \<and> validate_spec no_str spec_without_metadata
       = Inl (SpecValidationError [MissingTopLevelKey ''metadata''])"
  by code_simp

text \<open>
  C1, amended. When the four top-level keys are present and \<^verbatim>\<open>validate_spec\<close> is not left
  by a \<^verbatim>\<open>KeyError\<close> or \<^verbatim>\<open>TypeError\<close>, the duplicate-id errors that name an id are as many
  as the id's occurrences after the first among the ids under the uniqueness rule (field
  ids and option ids in one namespace), so the first occurrence gives none; and when an id
  repeats, the result is a \<^verbatim>\<open>SpecValidationError\<close>.
\<close>

theorem duplicate_ids_reported:
  assumes keys: "list_all (\<lambda>key. map_of d key \<noteq> None) TOP_LEVEL_REQUIRED_KEYS"
    and na: "\<not> aborted (validate_spec str_of (JObj d))"
  shows "dup_count x (reported (validate_spec str_of (JObj d)))
           = count_list (checked_ids (JObj d)) x - 1
       \<and> (\<not> distinct (checked_ids (JObj d))
            \<longrightarrow> (\<exists>errs. validate_spec str_of (JObj d) = Inl (SpecValidationError errs)))"
proof -
  from keys obtain m b l s where k: "map_of d ''metadata'' = Some m" "map_of d ''branding'' = Some b"
      "map_of d ''document_layout'' = Some l" "map_of d ''sections'' = Some s"
    by (auto simp: TOP_LEVEL_REQUIRED_KEYS_def)
  let ?s0 = "\<lparr>seen_ids = {}, errors = []\<rparr>"
  from validate_spec_run[OF k na] obtain s2 s3 where run:
    "check_branding str_of b (check_layout l (check_shapes m b l s ?s0)) = Inr s2"
    "check_sections s s2 = Inr s3"
    "validate_spec str_of (JObj d)
       = (if errors s3 \<noteq> [] then Inl (SpecValidationError (errors s3)) else Inr ())"
    by blast
  have "tracks ?s0 (check_layout l (check_shapes m b l s ?s0)) []"
    by (blast intro: tracks_step0 check_shapes_tracks check_layout_tracks)
  then have "tracks ?s0 s2 []"
    using check_branding_tracks[OF run(1)] by (blast intro: tracks_step0)
  from tracks_trans[OF this check_sections_tracks[OF run(2)]]
  have t: "tracks ?s0 s3 (checked_ids (JObj d))"
    using k by (simp add: checked_ids_def)
  then have c: "dup_count x (errors s3) = count_list (checked_ids (JObj d)) x - 1" for x
    by (simp add: tracks_def excess_def)
  have rep: "reported (validate_spec str_of (JObj d)) = errors s3"
    using run(3) by (simp add: reported_def)
  have "errors s3 \<noteq> []" if nd: "\<not> distinct (checked_ids (JObj d))"
  proof -
    from nd obtain y where "count_list (checked_ids (JObj d)) y > 1"
      using not_distinct_count by blast
    with c[of y] have "dup_count y (errors s3) > 0" by simp
    then show ?thesis by (auto simp: dup_count_def)
  qed
  with run(3) rep c show ?thesis by auto
qed


theorem duplicate_ids_reported_witness:
  "dup_count ''name'' (reported (validate_spec no_str (example_spec (JObj []) repeated_id_fields))) = 2
   \<and> dup_count ''pain'' (reported (validate_spec no_str (example_spec (JObj []) repeated_id_fields))) = 1
   \<and> dup_count ''symptoms'' (reported (validate_spec no_str (example_spec (JObj []) repeated_id_fields)))
       = 0
   \<and> validate_spec no_str (example_spec (JObj []) repeated_id_fields)
       = Inl (SpecValidationError
               [DuplicateOptionId ''name'', DuplicateOptionId ''pain'', DuplicateFieldId ''name''])"
proof -
  let ?d = "[(''metadata'', JObj []), (''branding'', example_branding),
             (''document_layout'', JObj []),
             (''sections'', JList [JObj [(''id'', JStr ''s1''), (''title'', JStr ''Intake''),
                                        (''fields'', JList repeated_id_fields)]])]"
  have k: "list_all (\<lambda>key. map_of ?d key \<noteq> None) TOP_LEVEL_REQUIRED_KEYS"
    by (simp add: TOP_LEVEL_REQUIRED_KEYS_def)
  have na: "\<not> aborted (validate_spec no_str (example_spec (JObj []) repeated_id_fields))"
    by code_simp
  have ids: "checked_ids (example_spec (JObj []) repeated_id_fields)
             = [''name'', ''symptoms'', ''pain'', ''name'', ''pain'', ''name'']"
    by code_simp
  have v: "validate_spec no_str (example_spec (JObj []) repeated_id_fields)
       = Inl (SpecValidationError
               [DuplicateOptionId ''name'', DuplicateOptionId ''pain'', DuplicateFieldId ''name''])"
    by code_simp
  note t = duplicate_ids_reported[OF k na[unfolded example_spec_def]]
  from t[of "''name''"] t[of "''pain''"] t[of "''symptoms''"] ids[unfolded example_spec_def]
  have "dup_count ''name'' (reported (validate_spec no_str (JObj ?d))) = 2
     \<and> dup_count ''pain'' (reported (validate_spec no_str (JObj ?d))) = 1
     \<and> dup_count ''symptoms'' (reported (validate_spec no_str (JObj ?d))) = 0"
    by simp
  with v show ?thesis by (simp add: example_spec_def)
qed

lemma prefix_set_mono: "prefix xs ys \<Longrightarrow> set xs \<subseteq> set ys"
  by (auto simp: prefix_def)

lemma tracks_prefix: "tracks st st' ids \<Longrightarrow> prefix (errors st) (errors st')"
  by (simp add: tracks_def)

lemma validate_fields_reach:
  "validate_fields si fi fs st = Inr st' \<Longrightarrow> j < length fs \<Longrightarrow>
   \<exists>a a'. validate_field si (fi + j) (fs ! j) a = Inr a' \<and> prefix (errors a') (errors st')"
proof (induction fs arbitrary: fi st j)
  case Nil
  then show ?case by simp
next
  case (Cons f fs)
  from Cons.prems(1) obtain s1 where s1: "validate_field si fi f st = Inr s1"
      "validate_fields si (Suc fi) fs s1 = Inr st'"
    by (auto split: sum.splits)
  show ?case
  proof (cases j)
    case 0
    have "prefix (errors s1) (errors st')"
      using validate_fields_tracks[OF s1(2)] by (rule tracks_prefix)
    with s1(1) 0 show ?thesis by auto
  next
    case (Suc j')
    with Cons.prems(2) have "j' < length fs" by simp
    from Cons.IH[OF s1(2) this] Suc show ?thesis by simp
  qed
qed

lemma validate_sections_reach:
  "validate_sections si secs st = Inr st' \<Longrightarrow> i < length secs \<Longrightarrow>
   \<exists>a a'. validate_section (si + i) (secs ! i) a = Inr a' \<and> prefix (errors a') (errors st')"
proof (induction secs arbitrary: si st i)
  case Nil
  then show ?case by simp
next
  case (Cons sec secs)
  from Cons.prems(1) obtain s1 where s1: "validate_section si sec st = Inr s1"
      "validate_sections (Suc si) secs s1 = Inr st'"
    by (auto split: sum.splits)
  show ?case
  proof (cases i)
    case 0
    have "prefix (errors s1) (errors st')"
      using validate_sections_tracks[OF s1(2)] by (rule tracks_prefix)
    with s1(1) 0 show ?thesis by auto
  next
    case (Suc i')
    with Cons.prems(2) have "i' < length secs" by simp
    from Cons.IH[OF s1(2) this] Suc show ?thesis by simp
  qed
qed

lemma validate_spec_reaches_field:
  assumes keys: "list_all (\<lambda>key. map_of d key \<noteq> None) TOP_LEVEL_REQUIRED_KEYS"
    and na: "\<not> aborted (validate_spec str_of (JObj d))"
    and secs: "map_of d ''sections'' = Some (JList secs)" "i < length secs" "secs ! i = JObj sd"
    and fl: "map_of sd ''fields'' = Some (JList fl)" "j < length fl"
  shows "\<exists>b b'. validate_field (Suc i) (Suc j) (fl ! j) b = Inr b'
           \<and> set (errors b') \<subseteq> set (reported (validate_spec str_of (JObj d)))"
proof -
  from keys secs(1) obtain m b l where k: "map_of d ''metadata'' = Some m"
      "map_of d ''branding'' = Some b" "map_of d ''document_layout'' = Some l"
    by (auto simp: TOP_LEVEL_REQUIRED_KEYS_def)
  from validate_spec_run[OF k secs(1) na] obtain s2 s3 where run:
    "check_sections (JList secs) s2 = Inr s3"
    "validate_spec str_of (JObj d)
       = (if errors s3 \<noteq> [] then Inl (SpecValidationError (errors s3)) else Inr ())"
    by blast
  have rep: "reported (validate_spec str_of (JObj d)) = errors s3"
    using run(2) by (simp add: reported_def)
  from run(1) have "validate_sections 1 secs s2 = Inr s3" by (simp add: check_sections_def)
  from validate_sections_reach[OF this secs(2)] secs(3) obtain a a' where
    a: "validate_section (Suc i) (JObj sd) a = Inr a'" "prefix (errors a') (errors s3)"
    by auto
  from validate_section_JObj[of a "Suc i" sd] fl a(1) obtain s3' where
    "validate_fields (Suc i) 1 fl s3' = Inr a'"
    by (auto split: if_splits)
  from validate_fields_reach[OF this fl(2)] obtain b b' where
    b: "validate_field (Suc i) (Suc j) (fl ! j) b = Inr b'" "prefix (errors b') (errors a')"
    by auto
  from b(2) a(2) have "set (errors b') \<subseteq> set (errors s3)"
    by (meson prefix_order.trans prefix_set_mono)
  with b(1) rep show ?thesis by auto
qed

text \<open>
  C6 fails as stated: a field with the five keys, an empty id and an invalid type gets the
  id error alone (line 188 leaves the field).
\<close>

theorem empty_id_hides_invalid_type:
  "validate_spec no_str (example_spec (JObj []) [bad_id_field])
     = Inl (SpecValidationError [FieldIdInvalid 1 1])"
  by code_simp

text \<open>
  C6, amended. Take a specification with the four top-level keys on which \<^verbatim>\<open>validate_spec\<close>
  is not left by a \<^verbatim>\<open>KeyError\<close> or \<^verbatim>\<open>TypeError\<close>, and in it field \<open>j + 1\<close> of section
  \<open>i + 1\<close>, an object with the five required keys. When its id is a non-blank string,
  every violation among an invalid type, a non-boolean \<^verbatim>\<open>required\<close>, a label that is not a
  non-blank string and a \<^verbatim>\<open>help_text\<close> that is not a string is among the reported errors.
  When its id is not a non-blank string, the id error is reported, and it is all that the
  field adds to the errors.
\<close>

theorem field_violations_reported:
  assumes keys: "list_all (\<lambda>key. map_of d key \<noteq> None) TOP_LEVEL_REQUIRED_KEYS"
    and na: "\<not> aborted (validate_spec str_of (JObj d))"
    and secs: "map_of d ''sections'' = Some (JList secs)" "i < length secs" "secs ! i = JObj sd"
    and fl: "map_of sd ''fields'' = Some (JList fl)" "j < length fl" "fl ! j = JObj fd"
    and k: "map_of fd ''id'' = Some fid" "map_of fd ''label'' = Some lab"
      "map_of fd ''type'' = Some ftype" "map_of fd ''required'' = Some req"
      "map_of fd ''help_text'' = Some ht"
  shows "(nonblank_str fid \<longrightarrow>
           (\<not> type_allowed ftype \<longrightarrow>
              FieldTypeInvalid (Suc i) (Suc j) ftype \<in> set (reported (validate_spec str_of (JObj d))))
         \<and> (\<not> is_bool req \<longrightarrow>
              FieldRequiredInvalid (Suc i) (Suc j) \<in> set (reported (validate_spec str_of (JObj d))))
         \<and> (\<not> nonblank_str lab \<longrightarrow>
              FieldLabelInvalid (Suc i) (Suc j) \<in> set (reported (validate_spec str_of (JObj d))))
         \<and> (\<not> is_str ht \<longrightarrow>
              FieldHelpTextInvalid (Suc i) (Suc j) \<in> set (reported (validate_spec str_of (JObj d)))))
       \<and> (\<not> nonblank_str fid \<longrightarrow>
           FieldIdInvalid (Suc i) (Suc j) \<in> set (reported (validate_spec str_of (JObj d)))
         \<and> validate_field si fi (JObj fd) st = Inr (add_error (FieldIdInvalid si fi) st))"
proof -
  from validate_spec_reaches_field[OF keys na secs fl(1,2)] fl(3) obtain b b' where
    b: "validate_field (Suc i) (Suc j) (JObj fd) b = Inr b'"
      "set (errors b') \<subseteq> set (reported (validate_spec str_of (JObj d)))"
    by auto
  show ?thesis
  proof (cases "nonblank_str fid")
    case True
    then obtain ident where i: "fid = JStr ident" "py_strip ident \<noteq> []"
      by (cases fid) auto
    from validate_field_good_id[OF k(1)[unfolded i(1)] k(2-5) i(2)] b(1)
    have c: "check_field_body (Suc i) (Suc j) fd ident ftype req lab ht b = Inr b'" by simp
    then have "hashable ftype"
      by (cases "hashable ftype") (simp_all add: check_field_body_def)
    from check_field_body_errors[OF this, of "Suc i" "Suc j" fd ident req lab ht b] c
    obtain rest where
      "errors b' = errors b
         @ (if ident \<in> seen_ids b then [DuplicateFieldId ident] else [])
         @ (if \<not> type_allowed ftype then [FieldTypeInvalid (Suc i) (Suc j) ftype] else [])
         @ (if \<not> is_bool req then [FieldRequiredInvalid (Suc i) (Suc j)] else [])
         @ (if \<not> nonblank_str lab then [FieldLabelInvalid (Suc i) (Suc j)] else [])
         @ (if \<not> is_str ht then [FieldHelpTextInvalid (Suc i) (Suc j)] else [])
         @ rest"
      by auto
    then have "(\<not> type_allowed ftype \<longrightarrow> FieldTypeInvalid (Suc i) (Suc j) ftype \<in> set (errors b'))
         \<and> (\<not> is_bool req \<longrightarrow> FieldRequiredInvalid (Suc i) (Suc j) \<in> set (errors b'))
         \<and> (\<not> nonblank_str lab \<longrightarrow> FieldLabelInvalid (Suc i) (Suc j) \<in> set (errors b'))
         \<and> (\<not> is_str ht \<longrightarrow> FieldHelpTextInvalid (Suc i) (Suc j) \<in> set (errors b'))"
      by simp
    with b(2) True show ?thesis by blast
  next
    case False
    from validate_field_bad_id[OF k False] b(1)
    have "b' = add_error (FieldIdInvalid (Suc i) (Suc j)) b" by simp
    then have "FieldIdInvalid (Suc i) (Suc j) \<in> set (errors b')" by simp
    with b(2) False validate_field_bad_id[OF k False, of si fi st] show ?thesis by blast
  qed
qed

theorem field_violations_reported_witness:
  "FieldTypeInvalid (Suc 0) (Suc 0) (JStr ''bogus'')
     \<in> set (reported (validate_spec no_str (example_spec (JObj []) [all_bad_field])))
   \<and> FieldRequiredInvalid (Suc 0) (Suc 0)
     \<in> set (reported (validate_spec no_str (example_spec (JObj []) [all_bad_field])))
   \<and> FieldLabelInvalid (Suc 0) (Suc 0)
     \<in> set (reported (validate_spec no_str (example_spec (JObj []) [all_bad_field])))
   \<and> FieldHelpTextInvalid (Suc 0) (Suc 0)
     \<in> set (reported (validate_spec no_str (example_spec (JObj []) [all_bad_field])))
   \<and> FieldIdInvalid (Suc 0) (Suc 0)
     \<in> set (reported (validate_spec no_str (example_spec (JObj []) [bad_id_field])))"
proof -
  let ?sec = "\<lambda>f. [(''id'', JStr ''s1''), (''title'', JStr ''Intake''), (''fields'', JList [f])]"
  let ?d = "\<lambda>f. [(''metadata'', JObj []), (''branding'', example_branding),
                 (''document_layout'', JObj []), (''sections'', JList [JObj (?sec f)])]"
  have k: "list_all (\<lambda>key. map_of (?d f) key \<noteq> None) TOP_LEVEL_REQUIRED_KEYS" for f
    by (simp add: TOP_LEVEL_REQUIRED_KEYS_def)
  have na1: "\<not> aborted (validate_spec no_str (example_spec (JObj []) [all_bad_field]))"
    by code_simp
  have na2: "\<not> aborted (validate_spec no_str (example_spec (JObj []) [bad_id_field]))"
    by code_simp
  have a: "\<not> type_allowed (JStr ''bogus'')" "\<not> is_bool (JStr ''yes'')" "\<not> nonblank_str (JStr [])"
    "\<not> is_str JNull" "nonblank_str (JStr ''name'')"
    by code_simp+
  from field_violations_reported
         [OF k na1[unfolded example_spec_def], of "[JObj (?sec all_bad_field)]" 0 "?sec all_bad_field"
            "[all_bad_field]" 0
            "[(''id'', JStr ''name''), (''label'', JStr []), (''type'', JStr ''bogus''),
              (''required'', JStr ''yes''), (''help_text'', JNull)]"
            "JStr ''name''" "JStr []" "JStr ''bogus''" "JStr ''yes''" JNull] a
  have good: "FieldTypeInvalid (Suc 0) (Suc 0) (JStr ''bogus'')
       \<in> set (reported (validate_spec no_str (JObj (?d all_bad_field))))
     \<and> FieldRequiredInvalid (Suc 0) (Suc 0)
       \<in> set (reported (validate_spec no_str (JObj (?d all_bad_field))))
     \<and> FieldLabelInvalid (Suc 0) (Suc 0)
       \<in> set (reported (validate_spec no_str (JObj (?d all_bad_field))))
     \<and> FieldHelpTextInvalid (Suc 0) (Suc 0)
       \<in> set (reported (validate_spec no_str (JObj (?d all_bad_field))))"
    by (simp add: all_bad_field_def)
  from field_violations_reported
         [OF k na2[unfolded example_spec_def], of "[JObj (?sec bad_id_field)]" 0 "?sec bad_id_field"
            "[bad_id_field]" 0
            "[(''id'', JStr []), (''label'', JStr ''Naam''), (''type'', JStr ''bogus''),
              (''required'', JBool True), (''help_text'', JStr [])]"
            "JStr []" "JStr ''Naam''" "JStr ''bogus''" "JBool True" "JStr []"] a
  have bad: "FieldIdInvalid (Suc 0) (Suc 0)
       \<in> set (reported (validate_spec no_str (JObj (?d bad_id_field))))"
    by (simp add: bad_id_field_def)
  from good bad show ?thesis by (simp add: example_spec_def)
qed

subsection \<open>Planning\<close>























subsection \<open>Fallback substitution\<close>






lemma substitute_markers_absent:
  "list_all (\<lambda>mr. \<not> sublist (fst mr) t) rm \<Longrightarrow> substitute_markers rm t = t"
  by (induction rm arbitrary: t) auto

lemma build_replacement_map_keys:
  "fst ` set (build_replacement_map phs rm) = fst ` set rm \<union> marker ` set phs"
  by (induction phs arbitrary: rm) (auto simp: dom_update)


lemma paragraph_text_set [simp]: "paragraph_text (set_paragraph_text t) = t"
  by (simp add: paragraph_text_def set_paragraph_text_def)


lemma fallback_paragraph_absent:
  "list_all (\<lambda>mr. \<not> sublist (fst mr) (paragraph_text p)) rm \<Longrightarrow> fallback_paragraph rm p = p"
  by (simp add: fallback_paragraph_def Let_def substitute_markers_absent)

lemma fallback_loop_unvisited:
  "r \<notin> set rs \<Longrightarrow> fallback_loop rm rs store r = store r"
  by (induction rs arbitrary: store) auto

lemma fallback_loop_absent:
  "list_all (\<lambda>mr. \<not> sublist (fst mr) (paragraph_text (store r))) rm
   \<Longrightarrow> fallback_loop rm rs store r = store r"
proof (induction rs arbitrary: store)
  case Nil
  then show ?case by simp
next
  case (Cons a rs)
  let ?store = "store(a := fallback_paragraph rm (store a))"
  have same: "?store r = store r"
    using Cons.prems fallback_paragraph_absent[of "store r" rm] by auto
  then have "fallback_loop rm rs ?store r = ?store r"
    using Cons.prems by (intro Cons.IH) simp
  with same show ?case by simp
qed

lemma fallback_loop_visited_once:
  "distinct rs \<Longrightarrow> r \<in> set rs \<Longrightarrow> fallback_loop rm rs store r = fallback_paragraph rm (store r)"
  by (induction rs arbitrary: store) (auto simp: fallback_loop_unvisited)

lemma no_marker_list_all:
  "(\<forall>p\<in>set phs. \<not> sublist (marker p) t) \<Longrightarrow>
   list_all (\<lambda>mr. \<not> sublist (fst mr) t) (build_replacement_map phs [])"
proof -
  assume a: "\<forall>p\<in>set phs. \<not> sublist (marker p) t"
  have "fst ` set (build_replacement_map phs []) = marker ` set phs"
    by (simp add: build_replacement_map_keys)
  with a show ?thesis
    by (auto simp: list_all_iff) (metis fst_conv imageE image_eqI)
qed


lemma paragraphs_of_subset:
  "set (paragraphs_of bs) \<subseteq> set (concat (map all_block_paragraphs bs))"
  by (induction bs rule: paragraphs_of.induct) auto

lemma all_paragraphs_split:
  "set (concat (map all_block_paragraphs bs)) =
   set (paragraphs_of bs) \<union>
   (\<Union>t\<in>set (tables_of bs). \<Union>row\<in>set t. \<Union>cell\<in>set row. set (concat (map all_block_paragraphs cell)))"
  by (induction bs rule: paragraphs_of.induct) auto

lemma iter_all_paragraphs_set:
  "set (iter_all_paragraphs doc) =
   set (paragraphs_of (body doc)) \<union>
   (\<Union>t\<in>set (tables_of (body doc)). \<Union>row\<in>set t. \<Union>cell\<in>set row. set (paragraphs_of cell))"
  by (auto simp: iter_all_paragraphs_def)

lemma iter_subset_all: "set (iter_all_paragraphs doc) \<subseteq> set (all_paragraphs doc)"
  unfolding iter_all_paragraphs_set all_paragraphs_def all_paragraphs_split[of "body doc"]
  using paragraphs_of_subset by fastforce


text \<open>
  C10. A paragraph whose text contains the marker of no placeholder is the same object
  after \<^verbatim>\<open>apply_plain_fallback\<close>, runs and formatting included: its text is not assigned.
  The body of the loop changes a paragraph only when the substituted text differs from
  the paragraph's text; in a document whose paragraphs are visited once each, a paragraph
  that differs afterwards was visited and its text differs. The structure of the document
  stays as it was.
\<close>

theorem apply_plain_fallback_frame:
  "((\<forall>p\<in>set placeholders. \<not> sublist (marker p) (paragraph_text (paragraphs doc r)))
      \<longrightarrow> paragraphs (apply_plain_fallback doc placeholders) r = paragraphs doc r)
   \<and> (fallback_paragraph rm p \<noteq> p
      \<longrightarrow> paragraph_text (fallback_paragraph rm p) \<noteq> paragraph_text p)
   \<and> (distinct (iter_all_paragraphs doc)
      \<longrightarrow> paragraphs (apply_plain_fallback doc placeholders) r \<noteq> paragraphs doc r
      \<longrightarrow> r \<in> set (iter_all_paragraphs doc)
          \<and> paragraph_text (paragraphs (apply_plain_fallback doc placeholders) r)
              \<noteq> paragraph_text (paragraphs doc r))
   \<and> body (apply_plain_fallback doc placeholders) = body doc"
proof -
  let ?rm = "build_replacement_map placeholders []"
  have c1: "paragraphs (apply_plain_fallback doc placeholders) r = paragraphs doc r"
    if "\<forall>p\<in>set placeholders. \<not> sublist (marker p) (paragraph_text (paragraphs doc r))"
    using that by (simp add: apply_plain_fallback_def fallback_loop_absent no_marker_list_all)
  have c2: "paragraph_text (fallback_paragraph rm p) \<noteq> paragraph_text p"
    if "fallback_paragraph rm p \<noteq> p"
    using that by (auto simp: fallback_paragraph_def Let_def split: if_splits)
  have c3: "r \<in> set (iter_all_paragraphs doc)
      \<and> paragraph_text (paragraphs (apply_plain_fallback doc placeholders) r)
          \<noteq> paragraph_text (paragraphs doc r)"
    if d: "distinct (iter_all_paragraphs doc)"
      and ne: "paragraphs (apply_plain_fallback doc placeholders) r \<noteq> paragraphs doc r"
  proof -
    have v: "r \<in> set (iter_all_paragraphs doc)"
      using ne fallback_loop_unvisited[of r "iter_all_paragraphs doc" ?rm "paragraphs doc"]
      by (auto simp: apply_plain_fallback_def)
    with d have "paragraphs (apply_plain_fallback doc placeholders) r
                 = fallback_paragraph ?rm (paragraphs doc r)"
      by (simp add: apply_plain_fallback_def fallback_loop_visited_once)
    with ne v show ?thesis
      by (auto simp: fallback_paragraph_def Let_def split: if_splits)
  qed
  have c4: "body (apply_plain_fallback doc placeholders) = body doc"
    by (simp add: apply_plain_fallback_def)
  from c1 c2 c3 c4 show ?thesis by blast
qed

theorem apply_plain_fallback_frame_witness:
  "paragraphs (apply_plain_fallback example_document example_placeholders) 1
     = [(''Naam'', ''bold''), ('' *'', ''accent'')]
   \<and> paragraph_text (paragraphs (apply_plain_fallback example_document example_placeholders) 2)
     \<noteq> ''[[FIELD:name]]''"
proof -
  have h1: "\<forall>p\<in>set example_placeholders.
              \<not> sublist (marker p) (paragraph_text (paragraphs example_document 1))"
    by code_simp
  have h2: "distinct (iter_all_paragraphs example_document)"
    by code_simp
  have h3: "paragraphs (apply_plain_fallback example_document example_placeholders) 2
            \<noteq> paragraphs example_document 2"
    by code_simp
  have e1: "paragraphs example_document 1 = [(''Naam'', ''bold''), ('' *'', ''accent'')]"
    by (simp add: example_document_def)
  have e2: "paragraph_text (paragraphs example_document 2) = ''[[FIELD:name]]''"
    by (simp add: example_document_def paragraph_text_def)
  from apply_plain_fallback_frame[of example_placeholders example_document 1] h1 e1
  have a: "paragraphs (apply_plain_fallback example_document example_placeholders) 1
           = [(''Naam'', ''bold''), ('' *'', ''accent'')]"
    by simp
  from apply_plain_fallback_frame[of example_placeholders example_document 2] h2 h3 e2
  have b: "paragraph_text (paragraphs (apply_plain_fallback example_document example_placeholders) 2)
           \<noteq> ''[[FIELD:name]]''"
    by simp
  from a b show ?thesis by simp
qed







subsection \<open>Interactive resolution\<close>

lemma count_errors_empty:
  "length ps = length counts \<Longrightarrow>
   concat (map2 count_error ps counts) = [] \<longleftrightarrow> list_all (\<lambda>n. n = 1) counts"
proof (induction ps counts rule: list_induct2)
  case Nil
  then show ?case by simp
next
  case (Cons p ps n counts)
  then show ?case by (auto simp: count_error_def)
qed

lemma resolve_placeholders_counts:
  "found_counts api ps w = Some (counts, w') \<Longrightarrow>
   length counts = length ps
   \<and> resolve_placeholders api ps w errs
       = Some (Inr (errs @ concat (map2 count_error ps counts), w'))"
proof (induction ps arbitrary: w errs counts)
  case Nil
  then show ?case by simp
next
  case (Cons p ps)
  from Cons.prems obtain n w1 ns where
    n: "replace_marker_with_control api w p = Some (Inr (n, w1))"
    and ns: "found_counts api ps w1 = Some (ns, w')" and c: "counts = n # ns"
    by (auto split: option.splits sum.splits prod.splits)
  let ?errs = "if n = 0 then errs @ [MarkerNotFound (marker p)]
             else if n > 1 then errs @ [MarkerRepeated n (marker p)] else errs"
  from Cons.IH[OF ns, of ?errs]
  have "length ns = length ps"
    "resolve_placeholders api ps w1 ?errs
       = Some (Inr (?errs @ concat (map2 count_error ps ns), w'))"
    by simp_all
  moreover have "?errs = errs @ count_error p n" by (simp add: count_error_def)
  ultimately show ?case using n c by simp
qed

lemma replace_single_marker_known:
  "resolvable_type (field_type p) \<Longrightarrow> \<exists>w'. replace_single_marker api w s e p = Inr w'"
  by (auto simp: resolvable_type_def replace_single_marker_def Let_def)

lemma replace_loop_returns:
  assumes dec: "search_decreases api rank ps" and p: "p \<in> set ps"
    and known: "resolvable_type (field_type p)"
  shows "\<exists>n w'. replace_loop api p w cursor k = Some (Inr (n, w'))"
proof (induction "rank p w cursor" arbitrary: w cursor k rule: less_induct)
  case less
  show ?case
  proof (cases "cursor \<le> content_end api w")
    case False
    then show ?thesis by (subst replace_loop.simps) simp
  next
    case True
    show ?thesis
    proof (cases "find_execute api w cursor (content_end api w) (marker p)")
      case None
      with True show ?thesis by (subst replace_loop.simps) simp
    next
      case (Some found)
      from replace_single_marker_known[OF known, of api w "fst found" "snd found"] obtain w1 where
        w1: "replace_single_marker api w (fst found) (snd found) p = Inr w1"
        by blast
      from dec p True Some w1
      have "rank p w1 (max (snd found) (cursor + 1)) < rank p w cursor"
        unfolding search_decreases_def by blast
      from less[OF this, of "k + 1"] obtain n w' where
        "replace_loop api p w1 (max (snd found) (cursor + 1)) (k + 1) = Some (Inr (n, w'))"
        by blast
      with True Some w1 show ?thesis by (subst replace_loop.simps) simp
    qed
  qed
qed

lemma found_counts_returns:
  assumes dec: "search_decreases api rank all"
  shows "set ps \<subseteq> set all \<Longrightarrow> list_all (\<lambda>p. resolvable_type (field_type p)) ps \<Longrightarrow>
         \<exists>counts w'. found_counts api ps w = Some (counts, w')"
proof (induction ps arbitrary: w)
  case Nil
  then show ?case by simp
next
  case (Cons p ps)
  from Cons.prems have p: "p \<in> set all" "resolvable_type (field_type p)" by simp_all
  from replace_loop_returns[OF dec p, of w 0 0] obtain n w1 where
    n: "replace_marker_with_control api w p = Some (Inr (n, w1))"
    by (auto simp: replace_marker_with_control_def)
  from Cons.prems have "set ps \<subseteq> set all" "list_all (\<lambda>p. resolvable_type (field_type p)) ps"
    by simp_all
  from Cons.IH[OF this, of w1] obtain ns w' where "found_counts api ps w1 = Some (ns, w')"
    by blast
  with n show ?case by simp
qed

lemma find_in_bounds:
  "find_in m t off = Some s \<Longrightarrow> off \<le> s \<and> s + length m \<le> off + length t"
proof (induction t arbitrary: off)
  case Nil
  then show ?case by (auto split: if_splits)
next
  case (Cons c cs)
  show ?case
  proof (cases "prefix m (c # cs)")
    case True
    then have "length m \<le> length (c # cs)" by (rule prefix_length_le)
    with True Cons.prems show ?thesis by simp
  next
    case False
    with Cons.prems have "find_in m cs (Suc off) = Some s" by simp
    from Cons.IH[OF this] show ?thesis by simp
  qed
qed

lemma text_api_replace_text:
  assumes "field_type p \<noteq> JStr ''signature_line''"
    and "replace_single_marker text_api w s e p = Inr w'"
  shows "fst w' = take s (fst w) @ drop e (fst w)"
  using assms
  by (auto simp: replace_single_marker_def text_api_def Let_def split: if_splits)

lemma text_api_decreases:
  assumes "list_all (\<lambda>p. marker p \<noteq> [] \<and> field_type p \<noteq> JStr ''signature_line'') ps"
  shows "search_decreases text_api (\<lambda>p w cursor. length (fst w) - cursor) ps"
  unfolding search_decreases_def
proof (intro ballI allI impI)
  fix p w cursor found w'
  assume p: "p \<in> set ps"
    and c: "cursor \<le> content_end text_api w"
    and f: "find_execute text_api w cursor (content_end text_api w) (marker p) = Some found"
    and r: "replace_single_marker text_api w (fst found) (snd found) p = Inr w'"
  from assms p have m: "marker p \<noteq> []" and t: "field_type p \<noteq> JStr ''signature_line''"
    by (auto simp: list_all_iff)
  from c have c': "cursor \<le> length (fst w)" by (simp add: text_api_def)
  from f obtain s where s: "find_in (marker p) (drop cursor (fst w)) cursor = Some s"
      "found = (s, s + length (marker p))"
    by (auto simp: text_api_def)
  from find_in_bounds[OF s(1)] c'
  have b: "cursor \<le> s" "s + length (marker p) \<le> length (fst w)" by simp_all
  from text_api_replace_text[OF t r] s(2)
  have "fst w' = take s (fst w) @ drop (s + length (marker p)) (fst w)" by simp
  with b have l: "length (fst w') = length (fst w) - length (marker p)" by simp
  define L where "L = length (marker p)"
  from m have pos: "0 < L" by (simp add: L_def)
  from s(2) have e: "snd found = s + L" by (simp add: L_def)
  from b l have n: "cursor \<le> s" "s + L \<le> length (fst w)"
      "length (fst w') = length (fst w) - L"
    by (simp_all add: L_def)
  from pos e n
  show "length (fst w') - max (snd found) (cursor + 1) < length (fst w) - cursor"
    by arith
qed

text \<open>
  C3. Let the searches for the placeholders return the numbers of matches \<open>counts\<close>,
  one for every placeholder: a number that is not 1 stops nothing. Then
  \<^verbatim>\<open>apply_com_controls\<close> saves the document when every number is 1, and otherwise raises
  one exception that holds, in the order of the placeholders, an error with the marker of
  each placeholder found zero times and an error with the marker and the number of each
  placeholder found more than once, and saves nothing. The searches do return when the
  field types are known and some measure of the document and the cursor decreases with
  every replacement.
\<close>

theorem apply_com_controls_aggregates:
  "(found_counts api placeholders w = Some (counts, w') \<longrightarrow>
      length counts = length placeholders
      \<and> apply_com_controls api w placeholders
          = Some (if list_all (\<lambda>n. n = 1) counts then (None, Some w')
                  else (Some (MarkersNotReplaced (concat (map2 count_error placeholders counts))),
                        None)))
   \<and> (search_decreases api rank placeholders
       \<longrightarrow> list_all (\<lambda>p. resolvable_type (field_type p)) placeholders
       \<longrightarrow> (\<exists>ns w''. found_counts api placeholders w = Some (ns, w'')))"
proof -
  have a: "length counts = length placeholders
      \<and> apply_com_controls api w placeholders
          = Some (if list_all (\<lambda>n. n = 1) counts then (None, Some w')
                  else (Some (MarkersNotReplaced (concat (map2 count_error placeholders counts))),
                        None))"
    if f: "found_counts api placeholders w = Some (counts, w')"
  proof -
    from resolve_placeholders_counts[OF f, of "[]"]
    have l: "length counts = length placeholders"
      and r: "resolve_placeholders api placeholders w []
                = Some (Inr (concat (map2 count_error placeholders counts), w'))"
      by simp_all
    from count_errors_empty[OF l[symmetric]] r l show ?thesis
      by (simp add: apply_com_controls_def)
  qed
  have b: "\<exists>ns w''. found_counts api placeholders w = Some (ns, w'')"
    if "search_decreases api rank placeholders"
      "list_all (\<lambda>p. resolvable_type (field_type p)) placeholders"
    using found_counts_returns[OF that(1) subset_refl that(2)] .
  from a b show ?thesis by blast
qed

theorem apply_com_controls_aggregates_witness:
  "apply_com_controls text_api (unresolved_text, []) example_placeholders
     = Some (Some (MarkersNotReplaced
                [MarkerRepeated 2 ''[[FIELD:pain]]'', MarkerNotFound ''[[FIELD:fatigue]]'']),
             None)
   \<and> apply_com_controls text_api (resolved_text, []) example_placeholders
     = Some (None,
             Some (''Naam  Klachten  pijn  moe'',
                   [(5, TextControl (JStr ''Naam'') (JStr ''name'')),
                    (15, CheckboxControl (JStr ''Pijn'') (JStr ''pain'')),
                    (21, CheckboxControl (JStr ''Moe'') (JStr ''fatigue''))]))
   \<and> (\<exists>ns w''. found_counts text_api example_placeholders (unresolved_text, []) = Some (ns, w''))"
proof -
  have f1: "found_counts text_api example_placeholders (unresolved_text, [])
      = Some ([1, 2, 0],
              (''Naam  Klachten  pijn, en nog eens  pijn'',
               [(5, TextControl (JStr ''Naam'') (JStr ''name'')),
                (15, CheckboxControl (JStr ''Pijn'') (JStr ''pain'')),
                (34, CheckboxControl (JStr ''Pijn'') (JStr ''pain''))]))"
    by code_simp
  have f2: "found_counts text_api example_placeholders (resolved_text, [])
      = Some ([1, 1, 1],
              (''Naam  Klachten  pijn  moe'',
               [(5, TextControl (JStr ''Naam'') (JStr ''name'')),
                (15, CheckboxControl (JStr ''Pijn'') (JStr ''pain'')),
                (21, CheckboxControl (JStr ''Moe'') (JStr ''fatigue''))]))"
    by code_simp
  have d: "search_decreases text_api (\<lambda>p w cursor. length (fst w) - cursor) example_placeholders"
    by (rule text_api_decreases) (simp add: example_placeholders_def)
  have k: "list_all (\<lambda>p. resolvable_type (field_type p)) example_placeholders"
    by (simp add: example_placeholders_def resolvable_type_def)
  note t = apply_com_controls_aggregates[of text_api example_placeholders]
  from t[of "(unresolved_text, [])"] f1
  have a: "apply_com_controls text_api (unresolved_text, []) example_placeholders
     = Some (Some (MarkersNotReplaced
                [MarkerRepeated 2 ''[[FIELD:pain]]'', MarkerNotFound ''[[FIELD:fatigue]]'']),
             None)"
    by (simp add: count_error_def example_placeholders_def)
  from t[of "(resolved_text, [])"] f2
  have b: "apply_com_controls text_api (resolved_text, []) example_placeholders
     = Some (None,
             Some (''Naam  Klachten  pijn  moe'',
                   [(5, TextControl (JStr ''Naam'') (JStr ''name'')),
                    (15, CheckboxControl (JStr ''Pijn'') (JStr ''pain'')),
                    (21, CheckboxControl (JStr ''Moe'') (JStr ''fatigue''))]))"
    by simp
  from t[of "(unresolved_text, [])" _ _ "\<lambda>p w cursor. length (fst w) - cursor"] d k
  have c: "\<exists>ns w''. found_counts text_api example_placeholders (unresolved_text, []) = Some (ns, w'')"
    by blast
  from a b c show ?thesis by blast
qed

end
